theory Spec2Isabelle
  imports Main
begin

section \<open>Shared data: byte strings, dynamic values, envelopes\<close>

text \<open>
  Kafka keys, values and header fields are byte slices; they are modelled as \<open>string\<close>.
  A record header is a pair of key and value, and the headers of a message are an ordered
  list in which a key may occur several times.
\<close>

type_synonym bytes = string
type_synonym header = "string \<times> string"

text \<open>
  The values of a Go \<open>map[string]any\<close> payload: a string, a 64-bit integer (what the worker
  stores under \<open>id\<close>), or some other dynamic value (a JSON number, boolean, null, array or
  object), of which the code only ever asks whether it is a string.
\<close>

datatype any = AString string | AInt64 int | AOther

text \<open>\<open>v, _ := m[k].(string)\<close>: the string stored under the key, the empty string otherwise.\<close>

definition string_of :: "(string \<rightharpoonup> any) \<Rightarrow> string \<Rightarrow> string" where
  "string_of m k = (case m k of Some (AString s) \<Rightarrow> s | _ \<Rightarrow> [])"

record command =
  Cmd_TraceID :: string
  Cmd_Command :: string
  Cmd_Resource :: string
  Cmd_Payload :: "string \<rightharpoonup> any"

text \<open>The \<open>Error\<close> field of an ack is a pointer to a struct of \<open>Code\<close> and \<open>Detail\<close>.\<close>

record ack =
  Ack_TraceID :: string
  Ack_Status :: string
  Ack_Event :: string
  Ack_Payload :: "string \<rightharpoonup> any"
  Ack_Error :: "(string \<times> string) option"

text \<open>
  A message as the broker clients see it. \<open>sarama.ConsumerMessage\<close> and a message read by a
  \<open>kafka.Reader\<close> also carry the offset at which they were stored.
\<close>

record kmsg =
  Topic :: string
  Key :: bytes
  Value :: bytes
  Headers :: "header list"

record consumer_message = kmsg +
  Offset :: nat

subsection \<open>Decimal conversions of \<open>strconv\<close>\<close>

definition digit_char :: "nat \<Rightarrow> char" where
  "digit_char d = ''0123456789'' ! d"

function nat_digits :: "nat \<Rightarrow> string" where
  "nat_digits n =
     (if n < 10 then [digit_char n] else nat_digits (n div 10) @ [digit_char (n mod 10)])"
  by pat_completeness auto
termination
  by (relation "measure id") auto

declare nat_digits.simps [simp del]

text \<open>\<open>strconv.Itoa\<close>, also what \<open>%d\<close> prints.\<close>

definition Itoa :: "int \<Rightarrow> string" where
  "Itoa i = (if i < 0 then CHR ''-'' # nat_digits (nat (- i)) else nat_digits (nat i))"

definition is_digit :: "char \<Rightarrow> bool" where
  "is_digit c = (c \<in> set ''0123456789'')"

definition digit_val :: "char \<Rightarrow> nat" where
  "digit_val c = of_char c - 48"

definition digits_val :: "string \<Rightarrow> nat" where
  "digits_val s = foldl (\<lambda>a c. 10 * a + digit_val c) 0 s"

text \<open>
  The syntax base 10 accepts: an optional sign, then at least one digit and nothing else.
  The result is the sign and the magnitude, not yet checked against the range.
\<close>

definition parse_decimal :: "string \<Rightarrow> (bool \<times> nat) option" where
  "parse_decimal s =
     (let signed = (s \<noteq> [] \<and> (hd s = CHR ''+'' \<or> hd s = CHR ''-''));
          neg = (s \<noteq> [] \<and> hd s = CHR ''-'');
          body = (if signed then tl s else s)
      in if body = [] \<or> \<not> list_all is_digit body then None
         else Some (neg, digits_val body))"

text \<open>\<open>strconv.Atoi\<close> on a 64-bit platform: a value out of range is an error.\<close>

definition Atoi :: "string \<Rightarrow> int option" where
  "Atoi s =
     (case parse_decimal s of
        None \<Rightarrow> None
      | Some (neg, n) \<Rightarrow>
          (let v = (if neg then - int n else int n)
           in if - (2 ^ 63) \<le> v \<and> v < 2 ^ 63 then Some v else None))"

text \<open>
  \<open>id, _ := strconv.ParseInt(idStr, 10, 64)\<close>: the value returned when the error is
  discarded, which is 0 on a syntax error and the nearest bound on a range error.
\<close>

definition ParseInt_value :: "string \<Rightarrow> int" where
  "ParseInt_value s =
     (case parse_decimal s of
        None \<Rightarrow> 0
      | Some (neg, n) \<Rightarrow>
          if \<not> neg \<and> 2 ^ 63 \<le> n then 2 ^ 63 - 1
          else if neg \<and> 2 ^ 63 < n then - (2 ^ 63)
          else if neg then - int n else int n)"

section \<open>The command worker (consumer of \<open>messages.commands\<close>)\<close>

subsection \<open>The database\<close>

text \<open>
  The three tables the worker touches. \<open>messages\<close> maps the primary key to the message
  column and \<open>next_id\<close> is the auto-increment counter; \<open>idempotency_keys\<close> maps the key to
  the stored status and trace id; \<open>saga_log\<close> is append-only. Keys are stored and compared
  as they are given. One worker handles its deliveries one after the other, each in a
  transaction of its own; what two workers do to the same key at the same time is outside
  this model.
\<close>

record saga_row =
  sl_trace_id :: string
  sl_step :: string
  sl_status :: string
  sl_error_code :: string
  sl_error_detail :: string

record idem_row =
  last_status :: string
  idem_trace_id :: string

record db =
  messages :: "int \<rightharpoonup> string"
  next_id :: int
  saga_log :: "saga_row list"
  idempotency_keys :: "string \<rightharpoonup> idem_row"

text \<open>
  What the environment does during one delivery: each database call and the ack produce
  may fail with an error text. \<open>found_rows\<close> says whether \<open>RowsAffected\<close> counts the rows an
  UPDATE matched (the driver's \<open>clientFoundRows\<close>) or, as by default, the rows it changed;
  the DSN comes from the environment. A failed statement leaves the tables as they were,
  and so does a failed commit.
\<close>

record dbenv =
  begin_err :: "string option"
  check_err :: "string option"
  exec_err :: "string option"
  saga_err :: bool
  mark_err :: "string option"
  commit_err :: "string option"
  send_err :: "string option"
  found_rows :: bool

text \<open>The variables of \<open>ConsumeClaim\<close> that the transaction closure assigns.\<close>

record txvars =
  v_status :: string
  v_event :: string
  v_payload :: "string \<rightharpoonup> any"
  v_e :: "(string \<times> string) option"

definition checkIdempotent :: "dbenv \<Rightarrow> db \<Rightarrow> string \<Rightarrow> string + bool" where
  "checkIdempotent env tx key =
     (case check_err env of
        Some err \<Rightarrow> Inl err
      | None \<Rightarrow> Inr (idempotency_keys tx key \<noteq> None))"

text \<open>\<open>INSERT IGNORE\<close>: a key already present is left as it is, without an error.\<close>

definition markIdempotent :: "dbenv \<Rightarrow> db \<Rightarrow> string \<Rightarrow> string \<Rightarrow> string \<Rightarrow> string + db" where
  "markIdempotent env tx key traceID status =
     (case mark_err env of
        Some err \<Rightarrow> Inl err
      | None \<Rightarrow>
          (case idempotency_keys tx key of
             Some _ \<Rightarrow> Inr tx
           | None \<Rightarrow>
               Inr (tx\<lparr>idempotency_keys :=
                      (idempotency_keys tx)
                        (key \<mapsto> \<lparr>last_status = status, idem_trace_id = traceID\<rparr>)\<rparr>)))"

text \<open>\<open>logSaga\<close> discards the error of its insert.\<close>

definition logSaga ::
  "dbenv \<Rightarrow> db \<Rightarrow> string \<Rightarrow> string \<Rightarrow> string \<Rightarrow> string \<Rightarrow> string \<Rightarrow> db" where
  "logSaga env tx traceID step status code detail =
     (if saga_err env then tx
      else tx\<lparr>saga_log := saga_log tx @
             [\<lparr>sl_trace_id = traceID, sl_step = step, sl_status = status,
               sl_error_code = code, sl_error_detail = detail\<rparr>]\<rparr>)"

subsection \<open>The four operations and the default branch\<close>

text \<open>
  Each branch of the \<open>switch\<close> returns the transaction's tables, the closure's variables,
  and whether it left the closure by \<open>return nil\<close> (before \<open>markIdempotent\<close>).
\<close>

definition failure :: "txvars \<Rightarrow> string \<Rightarrow> string \<Rightarrow> txvars" where
  "failure vs code detail = vs\<lparr>v_status := ''FAILURE'', v_e := Some (code, detail)\<rparr>"

definition caseCreate :: "dbenv \<Rightarrow> command \<Rightarrow> db \<Rightarrow> txvars \<Rightarrow> db \<times> txvars \<times> bool" where
  "caseCreate env cmd tx vs =
     (let m = string_of (Cmd_Payload cmd) ''message'' in
      case exec_err env of
        Some err \<Rightarrow>
          (logSaga env tx (Cmd_TraceID cmd) ''CreateMessage'' ''FAILURE'' ''DB_ERROR'' err,
           failure vs ''DB_ERROR'' err, True)
      | None \<Rightarrow>
          (let id = next_id tx;
               tx1 = tx\<lparr>messages := (messages tx)(id \<mapsto> m), next_id := id + 1\<rparr>;
               vs1 = vs\<lparr>v_payload := (v_payload vs)(''id'' \<mapsto> AInt64 id, ''message'' \<mapsto> AString m),
                        v_event := ''MessageCreated''\<rparr>
           in (logSaga env tx1 (Cmd_TraceID cmd) ''CreateMessage'' ''SUCCESS'' [] [], vs1, False)))"

definition caseRead :: "dbenv \<Rightarrow> command \<Rightarrow> db \<Rightarrow> txvars \<Rightarrow> db \<times> txvars \<times> bool" where
  "caseRead env cmd tx vs =
     (let id = ParseInt_value (string_of (Cmd_Payload cmd) ''id'');
          detail = ''id='' @ Itoa id
      in case (if exec_err env = None then messages tx id else None) of
           None \<Rightarrow>
             (logSaga env tx (Cmd_TraceID cmd) ''ReadMessage'' ''FAILURE'' ''NOT_FOUND'' detail,
              failure vs ''NOT_FOUND'' detail, True)
         | Some m \<Rightarrow>
             (logSaga env tx (Cmd_TraceID cmd) ''ReadMessage'' ''SUCCESS'' [] [],
              vs\<lparr>v_payload := (v_payload vs)(''id'' \<mapsto> AInt64 id, ''message'' \<mapsto> AString m),
                 v_event := ''MessageRead''\<rparr>, False))"

definition caseUpdate :: "dbenv \<Rightarrow> command \<Rightarrow> db \<Rightarrow> txvars \<Rightarrow> db \<times> txvars \<times> bool" where
  "caseUpdate env cmd tx vs =
     (let id = ParseInt_value (string_of (Cmd_Payload cmd) ''id'');
          m = string_of (Cmd_Payload cmd) ''message'';
          detail = ''id='' @ Itoa id
      in case exec_err env of
           Some err \<Rightarrow>
             (logSaga env tx (Cmd_TraceID cmd) ''UpdateMessage'' ''FAILURE'' ''DB_ERROR'' err,
              failure vs ''DB_ERROR'' err, True)
         | None \<Rightarrow>
             (let affected =
                    (case messages tx id of
                       None \<Rightarrow> (0::nat)
                     | Some old \<Rightarrow> if found_rows env \<or> old \<noteq> m then 1 else 0);
                  tx1 = (case messages tx id of
                           None \<Rightarrow> tx
                         | Some _ \<Rightarrow> tx\<lparr>messages := (messages tx)(id \<mapsto> m)\<rparr>)
              in if affected = 0 then
                   (logSaga env tx1 (Cmd_TraceID cmd) ''UpdateMessage'' ''FAILURE'' ''NOT_FOUND'' detail,
                    failure vs ''NOT_FOUND'' detail, True)
                 else
                   (logSaga env tx1 (Cmd_TraceID cmd) ''UpdateMessage'' ''SUCCESS'' [] [],
                    vs\<lparr>v_payload := (v_payload vs)(''id'' \<mapsto> AInt64 id, ''message'' \<mapsto> AString m),
                       v_event := ''MessageUpdated''\<rparr>, False)))"

definition caseDelete :: "dbenv \<Rightarrow> command \<Rightarrow> db \<Rightarrow> txvars \<Rightarrow> db \<times> txvars \<times> bool" where
  "caseDelete env cmd tx vs =
     (let id = ParseInt_value (string_of (Cmd_Payload cmd) ''id'');
          detail = ''id='' @ Itoa id
      in case exec_err env of
           Some err \<Rightarrow>
             (logSaga env tx (Cmd_TraceID cmd) ''DeleteMessage'' ''FAILURE'' ''DB_ERROR'' err,
              failure vs ''DB_ERROR'' err, True)
         | None \<Rightarrow>
             (case messages tx id of
                None \<Rightarrow>
                  (logSaga env tx (Cmd_TraceID cmd) ''DeleteMessage'' ''FAILURE'' ''NOT_FOUND'' detail,
                   failure vs ''NOT_FOUND'' detail, True)
              | Some _ \<Rightarrow>
                  (logSaga env (tx\<lparr>messages := (messages tx)(id := None)\<rparr>)
                     (Cmd_TraceID cmd) ''DeleteMessage'' ''SUCCESS'' [] [],
                   vs\<lparr>v_payload := (v_payload vs)(''id'' \<mapsto> AInt64 id),
                      v_event := ''MessageDeleted''\<rparr>, False)))"

definition caseDefault :: "db \<Rightarrow> txvars \<Rightarrow> db \<times> txvars \<times> bool" where
  "caseDefault tx vs = (tx, failure vs ''UNSUPPORTED'' ''unknown command'', False)"

definition switchCommand :: "dbenv \<Rightarrow> command \<Rightarrow> db \<Rightarrow> txvars \<Rightarrow> db \<times> txvars \<times> bool" where
  "switchCommand env cmd tx vs =
     (if Cmd_Command cmd = ''Create'' then caseCreate env cmd tx vs
      else if Cmd_Command cmd = ''Read'' then caseRead env cmd tx vs
      else if Cmd_Command cmd = ''Update'' then caseUpdate env cmd tx vs
      else if Cmd_Command cmd = ''Delete'' then caseDelete env cmd tx vs
      else caseDefault tx vs)"

subsection \<open>The transaction and one iteration of \<open>ConsumeClaim\<close>\<close>

text \<open>The key under which a command is deduplicated: the message key, else the trace id.\<close>

definition idemKey :: "consumer_message \<Rightarrow> command \<Rightarrow> string" where
  "idemKey msg cmd = (if Key msg = [] then Cmd_TraceID cmd else Key msg)"

text \<open>
  The closure passed to \<open>withTx\<close>: its error, the tables as the transaction sees them at
  its end, and the variables it assigned.
\<close>

definition txFn ::
  "dbenv \<Rightarrow> consumer_message \<Rightarrow> command \<Rightarrow> db \<Rightarrow> txvars \<Rightarrow> string option \<times> db \<times> txvars" where
  "txFn env msg cmd tx vs =
     (let key = idemKey msg cmd in
      case checkIdempotent env tx key of
        Inl err \<Rightarrow> (Some err, tx, vs)
      | Inr processed \<Rightarrow>
          if processed then (None, tx, vs)
          else
            (case switchCommand env cmd tx vs of
               (tx1, vs1, returned) \<Rightarrow>
                 if returned then (None, tx1, vs1)
                 else
                   (case markIdempotent env tx1 key (Cmd_TraceID cmd) (v_status vs1) of
                      Inl err \<Rightarrow> (Some err, tx1, vs1)
                    | Inr tx2 \<Rightarrow> (None, tx2, vs1))))"

text \<open>
  \<open>withTx\<close>: begin, run the closure, roll back on its error, commit otherwise. The
  result is the error, the committed tables (the old ones after a rollback or a failed
  begin or commit) and the closure's variables, which a rollback does not undo.
\<close>

definition withTx ::
  "dbenv \<Rightarrow> db \<Rightarrow> 'v \<Rightarrow> (db \<Rightarrow> 'v \<Rightarrow> string option \<times> db \<times> 'v) \<Rightarrow> string option \<times> db \<times> 'v" where
  "withTx env d vs fn =
     (case begin_err env of
        Some err \<Rightarrow> (Some err, d, vs)
      | None \<Rightarrow>
          (case fn d vs of
             (Some err, _, vs1) \<Rightarrow> (Some err, d, vs1)
           | (None, tx, vs1) \<Rightarrow>
               (case commit_err env of
                  Some err \<Rightarrow> (Some err, d, vs1)
                | None \<Rightarrow> (None, tx, vs1))))"

text \<open>
  The ack message: its value stands for \<open>json.Marshal(ack)\<close>, its key is the key of the
  consumed message.
\<close>

record ack_message =
  AM_Topic :: string
  AM_Key :: bytes
  AM_Value :: ack

text \<open>What one iteration does that is visible outside, in the order it does it.\<close>

datatype event =
    BadCommand
  | TxCommitted
  | TxError string
  | AckProduced ack_message
  | AckProduceFailed ack_message string
  | MarkMessage nat

definition initVars :: txvars where
  "initVars = \<lparr>v_status = ''SUCCESS'', v_event = [], v_payload = Map.empty, v_e = None\<rparr>"

definition buildAck :: "command \<Rightarrow> string option \<Rightarrow> txvars \<Rightarrow> ack" where
  "buildAck cmd err vs =
     (let vs1 = (case err of
                   None \<Rightarrow> vs
                 | Some t \<Rightarrow> vs\<lparr>v_status := ''FAILURE'', v_event := ''Error'',
                                v_e := Some (''INTERNAL'', t)\<rparr>)
      in \<lparr>Ack_TraceID = Cmd_TraceID cmd, Ack_Status = v_status vs1, Ack_Event = v_event vs1,
          Ack_Payload = v_payload vs1, Ack_Error = v_e vs1\<rparr>)"

text \<open>
  One iteration of the loop of \<open>consumerHandler.ConsumeClaim\<close>. \<open>unmarshal\<close> stands for
  \<open>json.Unmarshal\<close> into a \<open>Command\<close>, \<open>None\<close> being its error.
\<close>

definition consumeOne ::
  "(bytes \<Rightarrow> command option) \<Rightarrow> string \<Rightarrow> dbenv \<Rightarrow> db \<Rightarrow> consumer_message \<Rightarrow> db \<times> event list" where
  "consumeOne unmarshal ackTopic env d msg =
     (case unmarshal (Value msg) of
        None \<Rightarrow> (d, [BadCommand])
      | Some cmd \<Rightarrow>
          (case withTx env d initVars (txFn env msg cmd) of
             (err, d1, vs) \<Rightarrow>
               (let ackMsg = \<lparr>AM_Topic = ackTopic, AM_Key = Key msg,
                              AM_Value = buildAck cmd err vs\<rparr>
                in (d1,
                    [case err of None \<Rightarrow> TxCommitted | Some t \<Rightarrow> TxError t,
                     case send_err env of
                       None \<Rightarrow> AckProduced ackMsg
                     | Some t \<Rightarrow> AckProduceFailed ackMsg t,
                     MarkMessage (Offset msg)]))))"

text \<open>The loop over the messages of a claim, each with what the environment does then.\<close>

fun ConsumeClaim ::
  "(bytes \<Rightarrow> command option) \<Rightarrow> string \<Rightarrow> db \<Rightarrow> (consumer_message \<times> dbenv) list
     \<Rightarrow> db \<times> event list" where
  "ConsumeClaim unmarshal ackTopic d [] = (d, [])"
| "ConsumeClaim unmarshal ackTopic d ((msg, env) # rest) =
     (case consumeOne unmarshal ackTopic env d msg of
        (d1, evs) \<Rightarrow>
          (case ConsumeClaim unmarshal ackTopic d1 rest of
             (d2, evs2) \<Rightarrow> (d2, evs @ evs2)))"

section \<open>The API gateway: result cache, result endpoint, ack consumer\<close>

text \<open>
  The two maps guarded by \<open>cacheMu\<close>. Time is counted in nanoseconds; a missing entry of
  \<open>resultExpires\<close> reads as Go's zero time, which lies before every \<open>time.Now()\<close>.
\<close>

record cache =
  resultCache :: "string \<rightharpoonup> ack"
  resultExpires :: "string \<rightharpoonup> nat"

definition cacheTTL :: nat where
  "cacheTTL = 2 * 60 * 1000000000"

definition putAck :: "nat \<Rightarrow> ack \<Rightarrow> cache \<Rightarrow> cache" where
  "putAck now a c =
     c\<lparr>resultCache := (resultCache c)(Ack_TraceID a \<mapsto> a),
       resultExpires := (resultExpires c)(Ack_TraceID a \<mapsto> now + cacheTTL)\<rparr>"

text \<open>\<open>getAck\<close> returns \<open>(a, true)\<close>, modelled as \<open>Some a\<close>, or \<open>(Ack{}, false)\<close>, modelled as \<open>None\<close>.\<close>

definition getAck :: "nat \<Rightarrow> cache \<Rightarrow> string \<Rightarrow> ack option" where
  "getAck now c tid =
     (case resultCache c tid of
        None \<Rightarrow> None
      | Some a \<Rightarrow>
          (let exp = (case resultExpires c tid of None \<Rightarrow> 0 | Some t \<Rightarrow> t)
           in if exp < now then None else Some a))"

definition TrimPrefix :: "string \<Rightarrow> string \<Rightarrow> string" where
  "TrimPrefix s p = (if take (length p) s = p then drop (length p) s else s)"

record response =
  code :: nat
  content_type :: "string option"
  body :: "ack option"

text \<open>
  What one iteration of the handler's loop observes: the clock and the cache when it calls
  \<open>getAck\<close>, and whether its \<open>select\<close> then takes \<open>ctx.Done()\<close> (the 15 s budget is over
  or the client has gone) rather than the 200 ms timer.
\<close>

record poll =
  p_now :: nat
  p_cache :: cache
  p_done :: bool

text \<open>
  The loop of \<open>operationResultHandler\<close> over the iterations it makes; \<open>None\<close> says that
  it has not answered within them. A body written without \<open>WriteHeader\<close> is a 200.
\<close>

fun operationResultLoop :: "string \<Rightarrow> poll list \<Rightarrow> response option" where
  "operationResultLoop traceID [] = None"
| "operationResultLoop traceID (p # ps) =
     (case getAck (p_now p) (p_cache p) traceID of
        Some a \<Rightarrow> Some \<lparr>code = 200, content_type = Some ''application/json'', body = Some a\<rparr>
      | None \<Rightarrow>
          if p_done p then Some \<lparr>code = 204, content_type = None, body = None\<rparr>
          else operationResultLoop traceID ps)"

definition operationResultHandler :: "string \<Rightarrow> poll list \<Rightarrow> response option" where
  "operationResultHandler path ps = operationResultLoop (TrimPrefix path ''/v1/operations/'') ps"

text \<open>
  The ack consumer. Its session keeps, for the claimed partition, the position from which
  the group resumes after a restart; \<open>sess.MarkMessage(msg, "")\<close> moves it to the offset
  after \<open>msg\<close> unless it is already further, which is how sarama marks offsets.
  \<open>unmarshalAck\<close> stands for \<open>json.Unmarshal\<close> into an \<open>Ack\<close>.
\<close>

definition markOffset :: "nat \<Rightarrow> consumer_message \<Rightarrow> nat" where
  "markOffset pos msg = max pos (Offset msg + 1)"

datatype gw_event = CachePut ack | Marked nat

definition ackConsumeOne ::
  "(bytes \<Rightarrow> ack option) \<Rightarrow> nat \<Rightarrow> cache \<times> nat \<Rightarrow> consumer_message
     \<Rightarrow> (cache \<times> nat) \<times> gw_event list" where
  "ackConsumeOne unmarshalAck now st msg =
     (case unmarshalAck (Value msg) of
        None \<Rightarrow> (st, [])
      | Some a \<Rightarrow>
          if Ack_TraceID a \<noteq> [] then
            ((putAck now a (fst st), markOffset (snd st) msg), [CachePut a, Marked (Offset msg)])
          else (st, []))"

fun ackConsumeClaim ::
  "(bytes \<Rightarrow> ack option) \<Rightarrow> cache \<times> nat \<Rightarrow> (consumer_message \<times> nat) list \<Rightarrow> cache \<times> nat" where
  "ackConsumeClaim unmarshalAck st [] = st"
| "ackConsumeClaim unmarshalAck st ((msg, now) # rest) =
     ackConsumeClaim unmarshalAck (fst (ackConsumeOne unmarshalAck now st msg)) rest"

text \<open>After a restart the group is handed the messages from the marked position on.\<close>

definition redelivered :: "nat \<Rightarrow> consumer_message \<Rightarrow> bool" where
  "redelivered pos msg = (pos \<le> Offset msg)"

section \<open>The staged-retry demo: processor and retry worker\<close>

definition HeaderAttempt :: string where
  "HeaderAttempt = ''x-retry-attempt''"

definition HeaderError :: string where
  "HeaderError = ''x-error''"

record Stage =
  St_Topic :: string
  St_Delay :: nat

definition Stages :: "Stage list" where
  "Stages =
     [\<lparr>St_Topic = ''events.v1.retry.5s'', St_Delay = 5 * 1000000000\<rparr>,
      \<lparr>St_Topic = ''events.v1.retry.30s'', St_Delay = 30 * 1000000000\<rparr>,
      \<lparr>St_Topic = ''events.v1.retry.2m'', St_Delay = 2 * 60 * 1000000000\<rparr>]"

text \<open>
  \<open>retry.Next\<close>. A negative attempt passes the comparison and indexes the slice out of
  range, which panics: that is \<open>None\<close>. Otherwise the result is the pair Go returns.
\<close>

definition Next :: "int \<Rightarrow> (Stage \<times> bool) option" where
  "Next attempt =
     (if attempt < int (length Stages) then
        (if attempt < 0 then None else Some (Stages ! nat attempt, True))
      else Some (\<lparr>St_Topic = [], St_Delay = 0\<rparr>, False))"

fun parseAttemptHeaders :: "header list \<Rightarrow> int" where
  "parseAttemptHeaders [] = 0"
| "parseAttemptHeaders (h # hs) =
     (if fst h = HeaderAttempt then
        (case Atoi (snd h) of Some n \<Rightarrow> n | None \<Rightarrow> parseAttemptHeaders hs)
      else parseAttemptHeaders hs)"

definition parseAttempt :: "consumer_message \<Rightarrow> int" where
  "parseAttempt msg = parseAttemptHeaders (Headers msg)"

text \<open>
  \<open>publishNextRetry\<close>: the message handed to \<open>SendMessage\<close> and the error that returns
  (\<open>send\<close> is what the producer answers); \<open>None\<close> is the panic of \<open>retry.Next\<close>.
\<close>

definition publishNextRetry ::
  "string option \<Rightarrow> consumer_message \<Rightarrow> string \<Rightarrow> (kmsg \<times> string option) option" where
  "publishNextRetry send msg err =
     (let attempt = parseAttempt msg in
      case Next attempt of
        None \<Rightarrow> None
      | Some (stage, ok) \<Rightarrow>
          if ok then
            Some (\<lparr>Topic = St_Topic stage, Key = Key msg, Value = Value msg,
                    Headers = Headers msg @
                      [(HeaderAttempt, Itoa (attempt + 1)), (HeaderError, err)]\<rparr>, send)
          else
            Some (\<lparr>Topic = ''events.v1.dlq'', Key = Key msg, Value = Value msg,
                    Headers = Headers msg @
                      [(HeaderAttempt, Itoa attempt), (HeaderError, err)]\<rparr>, send))"

text \<open>\<open>businessLogic\<close> fails exactly on a payload that starts with \<open>fail:\<close>.\<close>

definition businessLogic :: "consumer_message \<Rightarrow> string option" where
  "businessLogic msg =
     (if 5 \<le> length (Value msg) \<and> take 5 (Value msg) = ''fail:''
      then Some ''downstream: simulated failure'' else None)"

text \<open>
  One iteration of the processor's \<open>ConsumeClaim\<close>: the message it published, if any, and
  whether it marked the consumed message; \<open>None\<close> is the panic.
\<close>

definition processOne ::
  "string option \<Rightarrow> consumer_message \<Rightarrow> (kmsg option \<times> bool) option" where
  "processOne send msg =
     (case businessLogic msg of
        None \<Rightarrow> Some (None, True)
      | Some err \<Rightarrow>
          (case publishNextRetry send msg err of
             None \<Rightarrow> None
           | Some (out, e) \<Rightarrow>
               if e \<noteq> None then Some (None, False) else Some (Some out, True)))"

text \<open>
  One iteration of the retry worker: after the stage's delay it sends the message to
  \<open>events.v1\<close> with key, value and headers kept, and marks it unless the send failed.
\<close>

definition requeueOne :: "string option \<Rightarrow> consumer_message \<Rightarrow> kmsg option \<times> bool" where
  "requeueOne send msg =
     (let out = \<lparr>Topic = ''events.v1'', Key = Key msg, Value = Value msg, Headers = Headers msg\<rparr>
      in if send \<noteq> None then (None, False) else (Some out, True))"

text \<open>A message as the broker hands it to a consumer, at some offset.\<close>

definition delivered :: "nat \<Rightarrow> kmsg \<Rightarrow> consumer_message" where
  "delivered off m =
     \<lparr>Topic = Topic m, Key = Key m, Value = Value m, Headers = Headers m, Offset = off\<rparr>"

text \<open>
  The journey of a message whose processing fails at each delivery while every send
  succeeds: what the processor publishes at each of the first \<open>n\<close> deliveries, the retry
  worker bringing each retry message back to \<open>events.v1\<close>. It ends at the dead-letter
  topic (or at a panic).
\<close>

fun failing_hops :: "nat \<Rightarrow> consumer_message \<Rightarrow> kmsg list" where
  "failing_hops 0 msg = []"
| "failing_hops (Suc n) msg =
     (case processOne None msg of
        Some (Some out, _) \<Rightarrow>
          out #
          (if Topic out = ''events.v1.dlq'' then []
           else
             (case requeueOne None (delivered 0 out) of
                (Some back, _) \<Rightarrow> failing_hops n (delivered 0 back)
              | (None, _) \<Rightarrow> []))
      | _ \<Rightarrow> [])"

section \<open>The saga lab: step service and DLQ replayer\<close>

record saga_event =
  SagaID :: string
  Step :: int
  SchemaVersion :: int
  Ts :: nat
  Ev_Payload :: "string \<rightharpoonup> any"

text \<open>Go's \<open>int\<close> has 64 bits on the platforms the lab is built for: its addition wraps.\<close>

definition wrap_int64 :: "int \<Rightarrow> int" where
  "wrap_int64 i = (i + 2 ^ 63) mod 2 ^ 64 - 2 ^ 63"

definition HasPrefix :: "string \<Rightarrow> string \<Rightarrow> bool" where
  "HasPrefix s p = (take (length p) s = p)"

text \<open>
  \<open>Process\<close>: the next event and whether the failure is fatal. \<open>hit\<close> is the outcome of
  \<open>rand.Float64() < p\<close> in the flaky mode.
\<close>

definition Process :: "bool \<Rightarrow> int \<Rightarrow> string \<Rightarrow> saga_event \<Rightarrow> saga_event \<times> bool" where
  "Process hit step failMode evt =
     (let next = evt\<lparr>Step := wrap_int64 (step + 1)\<rparr> in
      if step \<noteq> 5 \<or> failMode = [] \<or> failMode = ''none'' then (next, False)
      else if HasPrefix failMode ''flaky:'' then (if hit then (evt, False) else (next, False))
      else if failMode = ''retryable'' then (evt, False)
      else if failMode = ''fatal'' then (evt, True)
      else (next, False))"

record step_config =
  sc_brokers :: string
  sc_topicIn :: string
  sc_topicOut :: string
  sc_dlqTopic :: string
  sc_group :: string
  sc_stepStr :: string
  sc_failMode :: string

text \<open>A write of the step service: to the DLQ (the fatal branch) or to the output topic,
  the message, and whether \<open>WriteMessages\<close> succeeded.\<close>

datatype step_write = DlqWrite kmsg bool | OutWrite kmsg bool

text \<open>
  One iteration of the loop of \<open>RunStepService\<close> for a message that was read. \<open>unmarshalEvent\<close>
  and \<open>MustJSON\<close> stand for the JSON decoding and encoding of an event; \<open>wrote\<close> says
  whether the write succeeds.
\<close>

definition stepServiceOne ::
  "(bytes \<Rightarrow> saga_event option) \<Rightarrow> (saga_event \<Rightarrow> bytes) \<Rightarrow> step_config \<Rightarrow> bool \<Rightarrow> bool
     \<Rightarrow> consumer_message \<Rightarrow> step_write list" where
  "stepServiceOne unmarshalEvent MustJSON cfg hit wrote m =
     (case unmarshalEvent (Value m) of
        None \<Rightarrow> []
      | Some evt \<Rightarrow>
          (case Process hit (ParseInt_value (sc_stepStr cfg)) (sc_failMode cfg) evt of
             (next, fatal) \<Rightarrow>
               (let msg = \<lparr>Topic = [], Key = Key m, Value = MustJSON next,
                           Headers = Headers m @ [(''x-saga-id'', SagaID evt)]\<rparr>
                in if fatal then
                     [DlqWrite (msg\<lparr>Topic := sc_dlqTopic cfg,
                                    Headers := Headers msg @
                                      [(''x-original-topic'', sc_topicIn cfg)]\<rparr>) wrote]
                   else [OutWrite (msg\<lparr>Topic := sc_topicOut cfg\<rparr>) wrote])))"

text \<open>
  \<open>RunStepService\<close> on the messages it reads, each with the outcome of the random draw and
  of the write: the error of the configuration check, or the writes it made.
\<close>

definition RunStepService ::
  "(bytes \<Rightarrow> saga_event option) \<Rightarrow> (saga_event \<Rightarrow> bytes) \<Rightarrow> step_config
     \<Rightarrow> (consumer_message \<times> bool \<times> bool) list \<Rightarrow> string + step_write list" where
  "RunStepService unmarshalEvent MustJSON cfg reads =
     (if sc_brokers cfg = [] \<or> sc_topicIn cfg = [] \<or> sc_topicOut cfg = [] \<or> sc_group cfg = []
         \<or> sc_stepStr cfg = [] \<or> sc_dlqTopic cfg = []
      then Inl ''missing required envs: KAFKA_BROKERS, TOPIC_IN, TOPIC_OUT, DLQ_TOPIC, GROUP_ID, STEP''
      else Inr (concat (map (\<lambda>(m, hit, wrote).
                  stepServiceOne unmarshalEvent MustJSON cfg hit wrote m) reads)))"

record replay_config =
  rc_brokers :: string
  rc_dlqTopic :: string
  rc_group :: string
  rc_replayDefault :: string
  rc_sagaFilter :: string

text \<open>The replay target: \<open>REPLAY_TARGET\<close>, overwritten by each \<open>x-original-topic\<close> header in turn.\<close>

definition replayTarget :: "string \<Rightarrow> header list \<Rightarrow> string" where
  "replayTarget replayDefault hs =
     foldl (\<lambda>orig h. if fst h = ''x-original-topic'' then snd h else orig) replayDefault hs"

text \<open>
  The replayer reads with \<open>reader.ReadMessage\<close> on a reader that has a group id (the
  configuration check demands one). Such a read commits the offset of the message before
  it returns it, which is the contract of that call of the client library; the replayer
  itself never commits. So the first event of an iteration is the commit, and a replay
  follows if the message is replayed.
\<close>

datatype replay_event = OffsetCommitted nat | Replayed kmsg | ReplayFailed kmsg

definition replayOne ::
  "(bytes \<Rightarrow> saga_event option) \<Rightarrow> replay_config \<Rightarrow> bool \<Rightarrow> consumer_message
     \<Rightarrow> replay_event list" where
  "replayOne unmarshalEvent cfg wrote m =
     OffsetCommitted (Offset m) #
     (case unmarshalEvent (Value m) of
        None \<Rightarrow> []
      | Some evt \<Rightarrow>
          if rc_sagaFilter cfg \<noteq> [] \<and> SagaID evt \<noteq> rc_sagaFilter cfg then []
          else
            (let orig = replayTarget (rc_replayDefault cfg) (Headers m) in
             if orig = [] then []
             else
               (let msg = \<lparr>Topic = orig, Key = Key m, Value = Value m, Headers = Headers m\<rparr>
                in [if wrote then Replayed msg else ReplayFailed msg])))"

definition RunDLQReplayer ::
  "(bytes \<Rightarrow> saga_event option) \<Rightarrow> replay_config \<Rightarrow> (consumer_message \<times> bool) list
     \<Rightarrow> string + replay_event list" where
  "RunDLQReplayer unmarshalEvent cfg reads =
     (if rc_brokers cfg = [] \<or> rc_dlqTopic cfg = [] \<or> rc_group cfg = []
      then Inl ''missing envs: KAFKA_BROKERS, DLQ_TOPIC, GROUP_ID''
      else Inr (concat (map (\<lambda>(m, wrote). replayOne unmarshalEvent cfg wrote m) reads)))"

section \<open>Notions used to state the properties\<close>

text \<open>The key under which the worker deduplicates a message, if its value decodes.\<close>

definition dedupKey :: "(bytes \<Rightarrow> command option) \<Rightarrow> consumer_message \<Rightarrow> string option" where
  "dedupKey unmarshal msg = map_option (idemKey msg) (unmarshal (Value msg))"

text \<open>
  The number of deliveries, in a sequence of deliveries to the worker, that are
  deduplicated under the key \<open>k\<close> and change the \<open>messages\<close> table.
\<close>

fun effects ::
  "(bytes \<Rightarrow> command option) \<Rightarrow> string \<Rightarrow> string \<Rightarrow> db \<Rightarrow> (consumer_message \<times> dbenv) list
     \<Rightarrow> nat" where
  "effects unmarshal ackTopic k d [] = 0"
| "effects unmarshal ackTopic k d ((msg, env) # rest) =
     (let d1 = fst (consumeOne unmarshal ackTopic env d msg)
      in (if dedupKey unmarshal msg = Some k \<and> messages d1 \<noteq> messages d then 1 else 0)
         + effects unmarshal ackTopic k d1 rest)"

text \<open>The condition under which the ack consumer accepts a message: its value decodes
  and the decoded trace id is not empty.\<close>

definition ackValid :: "(bytes \<Rightarrow> ack option) \<Rightarrow> consumer_message \<Rightarrow> bool" where
  "ackValid unmarshalAck msg =
     (case unmarshalAck (Value msg) of None \<Rightarrow> False | Some a \<Rightarrow> Ack_TraceID a \<noteq> [])"

text \<open>The values of the \<open>x-original-topic\<close> headers of a message, in their order.\<close>

definition originalTopics :: "header list \<Rightarrow> string list" where
  "originalTopics hs = map snd (filter (\<lambda>h. fst h = ''x-original-topic'') hs)"

subsection \<open>Concrete inputs\<close>

text \<open>An empty database, and an environment in which nothing fails.\<close>

definition db0 :: db where
  "db0 = \<lparr>messages = Map.empty, next_id = 1, saga_log = [], idempotency_keys = Map.empty\<rparr>"

definition env_ok :: dbenv where
  "env_ok = \<lparr>begin_err = None, check_err = None, exec_err = None, saga_err = False,
             mark_err = None, commit_err = None, send_err = None, found_rows = False\<rparr>"

definition create_json :: bytes where
  \<open>create_json =
     ''{"trace_id":"t1","command":"Create","resource":"Message","payload":{"message":"hello"}}''\<close>

definition archive_json :: bytes where
  \<open>archive_json =
     ''{"trace_id":"t2","command":"Archive","resource":"Message","payload":{}}''\<close>

text \<open>The decoding of the two command documents above; \<open>not json\<close> is no JSON document.\<close>

definition demo_unmarshal :: "bytes \<Rightarrow> command option" where
  "demo_unmarshal v =
     (if v = create_json then
        Some \<lparr>Cmd_TraceID = ''t1'', Cmd_Command = ''Create'', Cmd_Resource = ''Message'',
              Cmd_Payload = [''message'' \<mapsto> AString ''hello'']\<rparr>
      else if v = archive_json then
        Some \<lparr>Cmd_TraceID = ''t2'', Cmd_Command = ''Archive'', Cmd_Resource = ''Message'',
              Cmd_Payload = Map.empty\<rparr>
      else None)"

definition msg_create :: consumer_message where
  "msg_create = \<lparr>Topic = ''messages.commands'', Key = ''k1'', Value = create_json,
                 Headers = [(''trace_id'', ''t1''), (''command'', ''Create'')], Offset = 7\<rparr>"

definition msg_archive :: consumer_message where
  "msg_archive = \<lparr>Topic = ''messages.commands'', Key = ''k2'', Value = archive_json,
                  Headers = [(''trace_id'', ''t2''), (''command'', ''Archive'')], Offset = 8\<rparr>"

definition msg_bad :: consumer_message where
  "msg_bad = \<lparr>Topic = ''messages.commands'', Key = ''k3'', Value = ''not json'',
              Headers = [], Offset = 9\<rparr>"

text \<open>An ack document and its decoding, for the ack consumer.\<close>

definition ack_json :: bytes where
  \<open>ack_json = ''{"trace_id":"t1","status":"SUCCESS","event":"MessageCreated"}''\<close>

definition ack_t1 :: ack where
  "ack_t1 = \<lparr>Ack_TraceID = ''t1'', Ack_Status = ''SUCCESS'', Ack_Event = ''MessageCreated'',
             Ack_Payload = Map.empty, Ack_Error = None\<rparr>"

definition demo_unmarshalAck :: "bytes \<Rightarrow> ack option" where
  "demo_unmarshalAck v = (if v = ack_json then Some ack_t1 else None)"

definition cache0 :: cache where
  "cache0 = \<lparr>resultCache = Map.empty, resultExpires = Map.empty\<rparr>"

definition ackmsg_bad :: consumer_message where
  "ackmsg_bad = \<lparr>Topic = ''messages.acks'', Key = ''k0'', Value = ''not json'',
                 Headers = [], Offset = 0\<rparr>"

definition ackmsg_good :: consumer_message where
  "ackmsg_good = \<lparr>Topic = ''messages.acks'', Key = ''k1'', Value = ack_json,
                  Headers = [], Offset = 1\<rparr>"

text \<open>A message of the retry demo whose processing fails, fresh from its producer.\<close>

definition msg_fail :: consumer_message where
  "msg_fail = \<lparr>Topic = ''events.v1'', Key = ''order-1'', Value = ''fail:x'',
               Headers = [], Offset = 0\<rparr>"

text \<open>The same payload arriving with an attempt count that has passed the last stage.\<close>

definition msg_exhausted :: consumer_message where
  "msg_exhausted = \<lparr>Topic = ''events.v1'', Key = ''order-1'', Value = ''fail:x'',
                    Headers = [(''x-retry-attempt'', ''3'')], Offset = 4\<rparr>"

text \<open>The saga lab: an event document, its decoding, and step 5 in its fatal mode.\<close>

definition event_json :: bytes where
  \<open>event_json = ''{"saga_id":"s1","step":5,"schema_version":1,"payload":{}}''\<close>

definition event_s1 :: saga_event where
  "event_s1 = \<lparr>SagaID = ''s1'', Step = 5, SchemaVersion = 1, Ts = 0, Ev_Payload = Map.empty\<rparr>"

definition demo_unmarshalEvent :: "bytes \<Rightarrow> saga_event option" where
  "demo_unmarshalEvent v = (if v = event_json then Some event_s1 else None)"

definition step5_fatal :: step_config where
  "step5_fatal = \<lparr>sc_brokers = ''kafka:9092'', sc_topicIn = ''saga.step4.completed'',
                  sc_topicOut = ''saga.step5.completed'', sc_dlqTopic = ''saga.dlq'',
                  sc_group = ''svc5-group'', sc_stepStr = ''5'', sc_failMode = ''fatal''\<rparr>"

definition msg_step4 :: consumer_message where
  "msg_step4 = \<lparr>Topic = ''saga.step4.completed'', Key = ''s1'', Value = event_json,
                Headers = [(''x-saga-id'', ''s1'')], Offset = 2\<rparr>"

definition replayer_cfg :: replay_config where
  "replayer_cfg = \<lparr>rc_brokers = ''kafka:9092'', rc_dlqTopic = ''saga.dlq'',
                   rc_group = ''dlq-replayer'', rc_replayDefault = [], rc_sagaFilter = ''s1''\<rparr>"

definition msg_dlq :: consumer_message where
  "msg_dlq = \<lparr>Topic = ''saga.dlq'', Key = ''s1'', Value = event_json,
              Headers = [(''x-saga-id'', ''s1''), (''x-saga-id'', ''s1''),
                         (''x-original-topic'', ''saga.step4.completed'')],
              Offset = 3\<rparr>"

section \<open>Properties of the command worker\<close>

subsection \<open>Evaluation lemmas\<close>

lemmas demo_inputs = db0_def env_ok_def create_json_def archive_json_def demo_unmarshal_def
  msg_create_def msg_archive_def msg_bad_def
lemmas worker_defs = consumeOne_def withTx_def txFn_def checkIdempotent_def markIdempotent_def
  idemKey_def switchCommand_def caseCreate_def caseDefault_def logSaga_def initVars_def
  buildAck_def failure_def string_of_def Let_def


subsection \<open>The idempotency key guards the \<open>messages\<close> table\<close>

lemma logSaga_messages [simp]: "messages (logSaga env tx a b c e f) = messages tx"
  by (simp add: logSaga_def)
lemma logSaga_idem [simp]: "idempotency_keys (logSaga env tx a b c e f) = idempotency_keys tx"
  by (simp add: logSaga_def)

lemma switch_idem: "switchCommand env cmd tx vs = (tx1, vs1, r) \<Longrightarrow> idempotency_keys tx1 = idempotency_keys tx"
  by (auto simp: switchCommand_def caseCreate_def caseRead_def caseUpdate_def caseDelete_def caseDefault_def Let_def
      split: if_splits option.splits)

lemma switch_returned: "switchCommand env cmd tx vs = (tx1, vs1, True) \<Longrightarrow> messages tx1 = messages tx"
  by (auto simp: switchCommand_def caseCreate_def caseRead_def caseUpdate_def caseDelete_def caseDefault_def Let_def
      split: if_splits option.splits)

lemma mark_key:
  assumes "markIdempotent env tx key t s = Inr tx2"
  shows "idempotency_keys tx2 key \<noteq> None" and "messages tx2 = messages tx"
    and "dom (idempotency_keys tx) \<subseteq> dom (idempotency_keys tx2)"
  using assms by (auto simp: markIdempotent_def split: option.splits)

lemma txFn_dom:
  assumes "txFn env msg cmd tx vs = (None, tx2, vs2)"
  shows "dom (idempotency_keys tx) \<subseteq> dom (idempotency_keys tx2)"
proof (cases "checkIdempotent env tx (idemKey msg cmd)")
  case (Inl err)
  with assms show ?thesis by (simp add: txFn_def)
next
  case (Inr processed)
  show ?thesis
  proof (cases processed)
    case True
    with Inr assms show ?thesis by (simp add: txFn_def)
  next
    case False
    obtain tx1 vs1 r where sw: "switchCommand env cmd tx vs = (tx1, vs1, r)"
      by (cases "switchCommand env cmd tx vs") auto
    have eq: "idempotency_keys tx1 = idempotency_keys tx" using sw by (rule switch_idem)
    show ?thesis
    proof (cases r)
      case True
      with Inr False sw assms have "tx2 = tx1" by (simp add: txFn_def)
      with eq show ?thesis by simp
    next
      case nr: False
      with Inr False sw assms
      have "markIdempotent env tx1 (idemKey msg cmd) (Cmd_TraceID cmd) (v_status vs1) = Inr tx2"
        by (simp add: txFn_def split: sum.splits)
      from mark_key(3)[OF this] eq show ?thesis by simp
    qed
  qed
qed

lemma txFn_effect:
  assumes "txFn env msg cmd tx vs = (None, tx2, vs2)" and "messages tx2 \<noteq> messages tx"
  shows "idempotency_keys tx (idemKey msg cmd) = None \<and> idempotency_keys tx2 (idemKey msg cmd) \<noteq> None"
proof (cases "checkIdempotent env tx (idemKey msg cmd)")
  case (Inl err)
  with assms show ?thesis by (simp add: txFn_def)
next
  case (Inr processed)
  show ?thesis
  proof (cases processed)
    case True
    with Inr assms show ?thesis by (simp add: txFn_def)
  next
    case False
    with Inr have fresh: "idempotency_keys tx (idemKey msg cmd) = None"
      by (auto simp: checkIdempotent_def split: option.splits)
    obtain tx1 vs1 r where sw: "switchCommand env cmd tx vs = (tx1, vs1, r)"
      by (cases "switchCommand env cmd tx vs") auto
    show ?thesis
    proof (cases r)
      case True
      with Inr False sw assms(1) have "tx2 = tx1" by (simp add: txFn_def)
      moreover from sw True have "switchCommand env cmd tx vs = (tx1, vs1, True)" by simp
      then have "messages tx1 = messages tx" by (rule switch_returned)
      ultimately show ?thesis using assms(2) by simp
    next
      case nr: False
      with Inr False sw assms(1)
      have "markIdempotent env tx1 (idemKey msg cmd) (Cmd_TraceID cmd) (v_status vs1) = Inr tx2"
        by (simp add: txFn_def split: sum.splits)
      from mark_key(1)[OF this] fresh show ?thesis by simp
    qed
  qed
qed

lemma withTx_result:
  assumes "withTx env d vs fn = (err, d1, vs1)"
  shows "(err \<noteq> None \<and> d1 = d) \<or> (err = None \<and> (\<exists>v. fn d vs = (None, d1, v))) \<or> d1 = d"
  using assms by (auto simp: withTx_def split: option.splits prod.splits)

lemma withTx_changed:
  assumes "withTx env d vs fn = (err, d1, vs1)" and "d1 \<noteq> d"
  shows "err = None \<and> fn d vs = (None, d1, vs1)"
  using assms by (auto simp: withTx_def split: option.splits prod.splits)

lemma consumeOne_changed:
  assumes "fst (consumeOne unmarshal ackTopic env d msg) \<noteq> d"
  shows "\<exists>cmd vs. unmarshal (Value msg) = Some cmd \<and>
           txFn env msg cmd d initVars = (None, fst (consumeOne unmarshal ackTopic env d msg), vs)"
proof (cases "unmarshal (Value msg)")
  case None
  with assms show ?thesis by (simp add: consumeOne_def)
next
  case (Some cmd)
  obtain err d1 vs where w: "withTx env d initVars (txFn env msg cmd) = (err, d1, vs)"
    by (cases "withTx env d initVars (txFn env msg cmd)") auto
  with Some have f: "fst (consumeOne unmarshal ackTopic env d msg) = d1"
    by (simp add: consumeOne_def Let_def)
  with assms have "d1 \<noteq> d" by simp
  from withTx_changed[OF w this] Some f show ?thesis by simp
qed

lemma consumeOne_dom:
  "dom (idempotency_keys d) \<subseteq> dom (idempotency_keys (fst (consumeOne unmarshal ackTopic env d msg)))"
proof (cases "fst (consumeOne unmarshal ackTopic env d msg) = d")
  case True
  then show ?thesis by simp
next
  case False
  from consumeOne_changed[OF this] txFn_dom show ?thesis by blast
qed

lemma consumeOne_effect:
  assumes "messages (fst (consumeOne unmarshal ackTopic env d msg)) \<noteq> messages d"
  shows "\<exists>k. dedupKey unmarshal msg = Some k \<and> idempotency_keys d k = None
          \<and> idempotency_keys (fst (consumeOne unmarshal ackTopic env d msg)) k \<noteq> None"
proof -
  from assms have "fst (consumeOne unmarshal ackTopic env d msg) \<noteq> d" by auto
  from consumeOne_changed[OF this] obtain cmd vs where
    u: "unmarshal (Value msg) = Some cmd" and
    t: "txFn env msg cmd d initVars = (None, fst (consumeOne unmarshal ackTopic env d msg), vs)"
    by blast
  from txFn_effect[OF t assms] u show ?thesis by (simp add: dedupKey_def)
qed

lemma effects_recorded:
  "idempotency_keys d k \<noteq> None \<Longrightarrow> effects unmarshal ackTopic k d ds = 0"
proof (induction ds arbitrary: d)
  case Nil
  then show ?case by simp
next
  case (Cons a ds)
  obtain msg env where a: "a = (msg, env)" by (cases a)
  define d1 where "d1 = fst (consumeOne unmarshal ackTopic env d msg)"
  from Cons.prems consumeOne_dom[of d unmarshal ackTopic env msg]
  have rec: "idempotency_keys d1 k \<noteq> None" unfolding d1_def by (auto simp: dom_def)
  have no: "\<not> (dedupKey unmarshal msg = Some k \<and> messages d1 \<noteq> messages d)"
  proof
    assume h: "dedupKey unmarshal msg = Some k \<and> messages d1 \<noteq> messages d"
    then have "messages (fst (consumeOne unmarshal ackTopic env d msg)) \<noteq> messages d"
      by (simp add: d1_def)
    from consumeOne_effect[OF this] h have "idempotency_keys d k = None" by auto
    with Cons.prems show False by simp
  qed
  have "effects unmarshal ackTopic k d (a # ds) =
          (if dedupKey unmarshal msg = Some k \<and> messages d1 \<noteq> messages d then 1 else 0)
          + effects unmarshal ackTopic k d1 ds"
    by (simp add: a d1_def Let_def)
  with no Cons.IH[OF rec] show ?case by simp
qed

lemma effects_le_1: "effects unmarshal ackTopic k d ds \<le> 1"
proof (induction ds arbitrary: d)
  case Nil
  then show ?case by simp
next
  case (Cons a ds)
  obtain msg env where a: "a = (msg, env)" by (cases a)
  define d1 where "d1 = fst (consumeOne unmarshal ackTopic env d msg)"
  have unfold: "effects unmarshal ackTopic k d (a # ds) =
          (if dedupKey unmarshal msg = Some k \<and> messages d1 \<noteq> messages d then 1 else 0)
          + effects unmarshal ackTopic k d1 ds"
    by (simp add: a d1_def Let_def)
  show ?case
  proof (cases "dedupKey unmarshal msg = Some k \<and> messages d1 \<noteq> messages d")
    case True
    then have "messages (fst (consumeOne unmarshal ackTopic env d msg)) \<noteq> messages d"
      by (simp add: d1_def)
    from consumeOne_effect[OF this] True
    have "idempotency_keys d1 k \<noteq> None" by (auto simp: d1_def)
    from effects_recorded[OF this] True unfold show ?thesis by simp
  next
    case False
    with Cons.IH[of d1] unfold show ?thesis by simp
  qed
qed


lemma consumeOne_TxError:
  assumes "TxError t \<in> set (snd (consumeOne unmarshal ackTopic env d msg))"
  shows "fst (consumeOne unmarshal ackTopic env d msg) = d"
proof (cases "unmarshal (Value msg)")
  case None
  then show ?thesis by (simp add: consumeOne_def)
next
  case (Some cmd)
  obtain err d1 vs where w: "withTx env d initVars (txFn env msg cmd) = (err, d1, vs)"
    by (cases "withTx env d initVars (txFn env msg cmd)") auto
  with Some assms have "err \<noteq> None"
    by (auto simp: consumeOne_def Let_def split: option.splits)
  with w have "d1 = d"
    by (auto simp: withTx_def split: option.splits prod.splits)
  with Some w show ?thesis by (simp add: consumeOne_def Let_def)
qed


text \<open>
  Claim C1. For every idempotency key, at most one delivery changes the \<open>messages\<close> table,
  however often commands under that key are delivered and whatever fails in between:
  the count of such deliveries in any sequence of deliveries is at most one. The key is
  checked and recorded in the transaction of the effect: a delivery that changes the table
  found the key absent and leaves it recorded, and a delivery whose transaction ended in an
  error leaves all three tables as they were.
\<close>

theorem effect_at_most_once:
  "effects unmarshal ackTopic k d ds \<le> 1 \<and>
   (messages (fst (consumeOne unmarshal ackTopic env d msg)) \<noteq> messages d \<longrightarrow>
      (\<exists>key. dedupKey unmarshal msg = Some key \<and> idempotency_keys d key = None \<and>
         idempotency_keys (fst (consumeOne unmarshal ackTopic env d msg)) key \<noteq> None)) \<and>
   (TxError t \<in> set (snd (consumeOne unmarshal ackTopic env d msg)) \<longrightarrow>
      fst (consumeOne unmarshal ackTopic env d msg) = d)"
  using effects_le_1 consumeOne_effect consumeOne_TxError by blast


text \<open>
  Three deliveries of the same Create under key \<open>k1\<close> have exactly one effect; the first
  inserts row 1 and records the key; with a failing commit the tables stay empty.
\<close>

theorem effect_at_most_once_witness:
  "effects demo_unmarshal ''messages.acks'' ''k1'' db0
     [(msg_create, env_ok), (msg_create, env_ok), (msg_create, env_ok)] = 1 \<and>
   messages (fst (consumeOne demo_unmarshal ''messages.acks'' env_ok db0 msg_create))
     = [1 \<mapsto> ''hello''] \<and>
   map_option last_status
     (idempotency_keys (fst (consumeOne demo_unmarshal ''messages.acks'' env_ok db0 msg_create)) ''k1'')
     = Some ''SUCCESS'' \<and>
   TxError ''commit: connection lost'' \<in>
     set (snd (consumeOne demo_unmarshal ''messages.acks''
                 (env_ok\<lparr>commit_err := Some ''commit: connection lost''\<rparr>) db0 msg_create)) \<and>
   fst (consumeOne demo_unmarshal ''messages.acks''
          (env_ok\<lparr>commit_err := Some ''commit: connection lost''\<rparr>) db0 msg_create) = db0"
proof -
  have first: "consumeOne demo_unmarshal ''messages.acks'' env_ok db0 msg_create =
      (\<lparr>messages = [1 \<mapsto> ''hello''], next_id = 2,
         saga_log = [\<lparr>sl_trace_id = ''t1'', sl_step = ''CreateMessage'', sl_status = ''SUCCESS'',
                      sl_error_code = [], sl_error_detail = []\<rparr>],
         idempotency_keys = [''k1'' \<mapsto> \<lparr>last_status = ''SUCCESS'', idem_trace_id = ''t1''\<rparr>]\<rparr>,
       [TxCommitted,
        AckProduced
          \<lparr>AM_Topic = ''messages.acks'', AM_Key = ''k1'',
            AM_Value = \<lparr>Ack_TraceID = ''t1'', Ack_Status = ''SUCCESS'',
                         Ack_Event = ''MessageCreated'',
                         Ack_Payload = [''id'' \<mapsto> AInt64 1, ''message'' \<mapsto> AString ''hello''],
                         Ack_Error = None\<rparr>\<rparr>,
        MarkMessage 7])"
    by (simp add: demo_inputs worker_defs)
  have changed: "messages (fst (consumeOne demo_unmarshal ''messages.acks'' env_ok db0 msg_create))
      \<noteq> messages db0"
    unfolding first by (simp add: db0_def)
  have failed: "TxError ''commit: connection lost'' \<in>
     set (snd (consumeOne demo_unmarshal ''messages.acks''
                 (env_ok\<lparr>commit_err := Some ''commit: connection lost''\<rparr>) db0 msg_create))"
    by (simp add: demo_inputs worker_defs)
  have key: "dedupKey demo_unmarshal msg_create = Some ''k1''"
    by (simp add: dedupKey_def idemKey_def demo_inputs)
  have one: "1 \<le> effects demo_unmarshal ''messages.acks'' ''k1'' db0
     [(msg_create, env_ok), (msg_create, env_ok), (msg_create, env_ok)]"
    using changed key by (simp add: Let_def)
  from effect_at_most_once
      [where unmarshal = demo_unmarshal and ackTopic = "''messages.acks''" and k = "''k1''"
         and d = db0 and ds = "[(msg_create, env_ok), (msg_create, env_ok), (msg_create, env_ok)]"
         and env = "env_ok\<lparr>commit_err := Some ''commit: connection lost''\<rparr>"
         and msg = msg_create and t = "''commit: connection lost''"]
    one failed first
  show ?thesis by simp
qed


subsection \<open>Ack produce and offset\<close>

text \<open>
  Claim C2. The claim asks that the offset be marked only after the ack produce has
  succeeded. The worker logs a failed produce and marks the message all the same: here
  the Create is committed, the produce of its ack fails, and offset 7 is marked.
\<close>

theorem offset_marked_after_failed_ack:
  "snd (consumeOne demo_unmarshal ''messages.acks''
          (env_ok\<lparr>send_err := Some ''kafka: broker not available''\<rparr>) db0 msg_create) =
     [TxCommitted,
      AckProduceFailed
        \<lparr>AM_Topic = ''messages.acks'', AM_Key = ''k1'',
          AM_Value = \<lparr>Ack_TraceID = ''t1'', Ack_Status = ''SUCCESS'',
                       Ack_Event = ''MessageCreated'',
                       Ack_Payload = [''id'' \<mapsto> AInt64 1, ''message'' \<mapsto> AString ''hello''],
                       Ack_Error = None\<rparr>\<rparr>
        ''kafka: broker not available'',
      MarkMessage 7]"
  by (simp add: demo_inputs worker_defs)


subsection \<open>Redelivery of a recorded key\<close>

text \<open>
  Claim C7. The claim asks for a FAILURE ack when a command is redelivered whose key is
  recorded with last status FAILURE. The first delivery of an unsupported command records
  \<open>k2\<close> with FAILURE and acks FAILURE; its redelivery finds the key, never reads the
  stored status, and acks SUCCESS.
\<close>

theorem redelivered_failure_acked_success:
  "consumeOne demo_unmarshal ''messages.acks'' env_ok db0 msg_archive =
     (db0\<lparr>idempotency_keys := [''k2'' \<mapsto> \<lparr>last_status = ''FAILURE'', idem_trace_id = ''t2''\<rparr>]\<rparr>,
      [TxCommitted,
       AckProduced
         \<lparr>AM_Topic = ''messages.acks'', AM_Key = ''k2'',
           AM_Value = \<lparr>Ack_TraceID = ''t2'', Ack_Status = ''FAILURE'', Ack_Event = [],
                        Ack_Payload = Map.empty,
                        Ack_Error = Some (''UNSUPPORTED'', ''unknown command'')\<rparr>\<rparr>,
       MarkMessage 8])
   \<and> snd (consumeOne demo_unmarshal ''messages.acks'' env_ok
            (db0\<lparr>idempotency_keys := [''k2'' \<mapsto> \<lparr>last_status = ''FAILURE'', idem_trace_id = ''t2''\<rparr>]\<rparr>)
            msg_archive) =
      [TxCommitted,
       AckProduced
         \<lparr>AM_Topic = ''messages.acks'', AM_Key = ''k2'',
           AM_Value = \<lparr>Ack_TraceID = ''t2'', Ack_Status = ''SUCCESS'', Ack_Event = [],
                        Ack_Payload = Map.empty, Ack_Error = None\<rparr>\<rparr>,
       MarkMessage 8]"
  by (simp add: demo_inputs worker_defs)


subsection \<open>A command that does not decode\<close>

text \<open>
  Claim C6, as stated, fails: for a value that does not decode the worker produces
  nothing, to a dead-letter topic or anywhere else; the iteration only logs.
\<close>

theorem bad_command_not_routed_to_dlq:
  "consumeOne demo_unmarshal ''messages.acks'' env_ok db0 msg_bad = (db0, [BadCommand])"
  by (simp add: demo_inputs worker_defs)


text \<open>
  Claim C6, amended. A command whose value does not decode is logged and skipped: no
  message is produced (no dead-letter message, no ack, no retry), the database is not
  touched, and the message is not marked.
\<close>

theorem bad_command_skipped:
  "unmarshal (Value msg) = None \<Longrightarrow> consumeOne unmarshal ackTopic env d msg = (d, [BadCommand])"
  by (simp add: consumeOne_def)

theorem bad_command_skipped_witness:
  "demo_unmarshal (Value (msg_bad\<lparr>Key := []\<rparr>)) = None \<and>
   consumeOne demo_unmarshal ''messages.acks'' (env_ok\<lparr>send_err := Some ''down''\<rparr>)
     (db0\<lparr>next_id := 5\<rparr>) (msg_bad\<lparr>Key := []\<rparr>) = (db0\<lparr>next_id := 5\<rparr>, [BadCommand])"
proof -
  have h: "demo_unmarshal (Value (msg_bad\<lparr>Key := []\<rparr>)) = None"
    by (simp add: demo_inputs)
  from h bad_command_skipped [of demo_unmarshal "msg_bad\<lparr>Key := []\<rparr>" "''messages.acks''"
      "env_ok\<lparr>send_err := Some ''down''\<rparr>" "db0\<lparr>next_id := 5\<rparr>"]
  show ?thesis by simp
qed


subsection \<open>An unsupported command\<close>

text \<open>
  Claim C10, as stated, fails: when the transaction cannot begin, the ack of an
  unsupported command carries the code INTERNAL and no idempotency record is inserted.
\<close>

theorem unsupported_with_db_down_is_internal:
  "consumeOne demo_unmarshal ''messages.acks''
     (env_ok\<lparr>begin_err := Some ''dial tcp: connection refused''\<rparr>) db0 msg_archive =
     (db0,
      [TxError ''dial tcp: connection refused'',
       AckProduced
         \<lparr>AM_Topic = ''messages.acks'', AM_Key = ''k2'',
           AM_Value = \<lparr>Ack_TraceID = ''t2'', Ack_Status = ''FAILURE'', Ack_Event = ''Error'',
                        Ack_Payload = Map.empty,
                        Ack_Error = Some (''INTERNAL'', ''dial tcp: connection refused'')\<rparr>\<rparr>,
       MarkMessage 8])"
  by (simp add: demo_inputs worker_defs)


text \<open>
  Claim C10, amended. For a command whose operation is none of Create, Read, Update and
  Delete, whose key is not yet recorded, and whose transaction begins, checks, inserts
  and commits without a database error: the worker hands the producer a FAILURE ack with
  error code UNSUPPORTED, inserts the idempotency record of the key with last status
  FAILURE, changes nothing else in the database (so writes no \<open>saga_log\<close> row), and marks
  the message.
\<close>

theorem unsupported_command_failure_ack:
  assumes "unmarshal (Value msg) = Some cmd"
    and "Cmd_Command cmd \<notin> {''Create'', ''Read'', ''Update'', ''Delete''}"
    and "idempotency_keys d (idemKey msg cmd) = None"
    and "begin_err env = None" and "check_err env = None"
    and "mark_err env = None" and "commit_err env = None"
  shows "consumeOne unmarshal ackTopic env d msg =
     (d\<lparr>idempotency_keys := (idempotency_keys d)
           (idemKey msg cmd \<mapsto> \<lparr>last_status = ''FAILURE'', idem_trace_id = Cmd_TraceID cmd\<rparr>)\<rparr>,
      [TxCommitted,
       (let ackMsg =
              \<lparr>AM_Topic = ackTopic, AM_Key = Key msg,
                AM_Value = \<lparr>Ack_TraceID = Cmd_TraceID cmd, Ack_Status = ''FAILURE'',
                             Ack_Event = [], Ack_Payload = Map.empty,
                             Ack_Error = Some (''UNSUPPORTED'', ''unknown command'')\<rparr>\<rparr>
        in case send_err env of
             None \<Rightarrow> AckProduced ackMsg
           | Some t \<Rightarrow> AckProduceFailed ackMsg t),
       MarkMessage (Offset msg)])"
proof -
  from assms(2) have sw: "switchCommand env cmd d initVars = caseDefault d initVars"
    by (simp add: switchCommand_def)
  have tx: "txFn env msg cmd d initVars =
      (None,
       d\<lparr>idempotency_keys := (idempotency_keys d)
           (idemKey msg cmd \<mapsto> \<lparr>last_status = ''FAILURE'', idem_trace_id = Cmd_TraceID cmd\<rparr>)\<rparr>,
       failure initVars ''UNSUPPORTED'' ''unknown command'')"
    using assms(3,5,6)
    by (simp add: txFn_def checkIdempotent_def sw caseDefault_def markIdempotent_def failure_def)
  have "withTx env d initVars (txFn env msg cmd) =
      (None,
       d\<lparr>idempotency_keys := (idempotency_keys d)
           (idemKey msg cmd \<mapsto> \<lparr>last_status = ''FAILURE'', idem_trace_id = Cmd_TraceID cmd\<rparr>)\<rparr>,
       failure initVars ''UNSUPPORTED'' ''unknown command'')"
    using assms(4,7) by (simp add: withTx_def tx)
  with assms(1) show ?thesis
    by (simp add: consumeOne_def buildAck_def failure_def initVars_def Let_def
        split: option.splits)
qed

theorem unsupported_command_failure_ack_witness:
  "demo_unmarshal (Value msg_archive) =
     Some \<lparr>Cmd_TraceID = ''t2'', Cmd_Command = ''Archive'', Cmd_Resource = ''Message'',
           Cmd_Payload = Map.empty\<rparr> \<and>
   ''Archive'' \<notin> {''Create'', ''Read'', ''Update'', ''Delete''} \<and>
   saga_log (fst (consumeOne demo_unmarshal ''messages.acks'' env_ok db0 msg_archive)) = [] \<and>
   map_option last_status
     (idempotency_keys (fst (consumeOne demo_unmarshal ''messages.acks'' env_ok db0 msg_archive)) ''k2'')
     = Some ''FAILURE'' \<and>
   snd (consumeOne demo_unmarshal ''messages.acks'' env_ok db0 msg_archive) =
     [TxCommitted,
      AckProduced
         \<lparr>AM_Topic = ''messages.acks'', AM_Key = ''k2'',
           AM_Value = \<lparr>Ack_TraceID = ''t2'', Ack_Status = ''FAILURE'', Ack_Event = [],
                        Ack_Payload = Map.empty,
                        Ack_Error = Some (''UNSUPPORTED'', ''unknown command'')\<rparr>\<rparr>,
      MarkMessage 8]"
proof -
  let ?cmd = "\<lparr>Cmd_TraceID = ''t2'', Cmd_Command = ''Archive'', Cmd_Resource = ''Message'',
           Cmd_Payload = Map.empty\<rparr>"
  have h1: "demo_unmarshal (Value msg_archive) = Some ?cmd"
    by (simp add: demo_inputs)
  have h2: "Cmd_Command ?cmd \<notin> {''Create'', ''Read'', ''Update'', ''Delete''}" by simp
  have h3: "idempotency_keys db0 (idemKey msg_archive ?cmd) = None" by (simp add: db0_def)
  have k: "idemKey msg_archive ?cmd = ''k2''" by (simp add: idemKey_def msg_archive_def)
  have h4: "begin_err env_ok = None \<and> check_err env_ok = None \<and> mark_err env_ok = None
      \<and> commit_err env_ok = None \<and> send_err env_ok = None"
    by (simp add: env_ok_def)
  from unsupported_command_failure_ack
         [where unmarshal = demo_unmarshal and msg = msg_archive and cmd = ?cmd and d = db0
            and env = env_ok and ackTopic = "''messages.acks''"]
       h1 h2 h3 h4 k
  show ?thesis by (simp add: db0_def msg_archive_def)
qed

section \<open>Properties of the API gateway\<close>

lemmas gateway_inputs = cache0_def ack_json_def ack_t1_def demo_unmarshalAck_def
  ackmsg_bad_def ackmsg_good_def

subsection \<open>The result endpoint\<close>

text \<open>
  Claim C8, as stated, fails: an ack put at time 5 has expired at time \<open>cacheTTL + 6\<close>;
  \<open>getAck\<close> then reports it as absent at every poll and the handler, when its wait ends,
  answers 204 and not 410.
\<close>

theorem expired_result_answers_204:
  "getAck (cacheTTL + 6) (putAck 5 ack_t1 cache0) ''t1'' = None \<and>
   resultExpires (putAck 5 ack_t1 cache0) ''t1'' = Some (cacheTTL + 5) \<and>
   operationResultHandler ''/v1/operations/t1''
     [\<lparr>p_now = cacheTTL + 6, p_cache = putAck 5 ack_t1 cache0, p_done = False\<rparr>,
      \<lparr>p_now = cacheTTL + 200000006, p_cache = putAck 5 ack_t1 cache0, p_done = False\<rparr>,
      \<lparr>p_now = cacheTTL + 400000006, p_cache = putAck 5 ack_t1 cache0, p_done = True\<rparr>]
     = Some \<lparr>code = 204, content_type = None, body = None\<rparr>"
  by (simp add: operationResultHandler_def TrimPrefix_def getAck_def putAck_def gateway_inputs)

lemma operationResultLoop_answer:
  assumes "operationResultLoop tid ps = Some r"
  shows "(code r = 200 \<and> content_type r = Some ''application/json'' \<and> body r \<noteq> None \<and>
            (\<exists>p \<in> set ps. body r = getAck (p_now p) (p_cache p) tid))
         \<or> (code r = 204 \<and> body r = None \<and>
            (\<exists>p \<in> set ps. p_done p \<and> getAck (p_now p) (p_cache p) tid = None))"
  using assms
proof (induction ps)
  case Nil
  then show ?case by simp
next
  case (Cons p ps)
  show ?case
  proof (cases "getAck (p_now p) (p_cache p) tid")
    case (Some a)
    with Cons.prems show ?thesis by auto
  next
    case None
    show ?thesis
    proof (cases "p_done p")
      case True
      with None Cons.prems show ?thesis by auto
    next
      case False
      with None Cons.prems have "operationResultLoop tid ps = Some r" by simp
      from Cons.IH[OF this] show ?thesis by auto
    qed
  qed
qed

lemma operationResultLoop_answers:
  "\<exists>p \<in> set ps. p_done p \<Longrightarrow> \<exists>r. operationResultLoop tid ps = Some r"
  by (induction ps) (auto split: option.splits)

lemma getAck_expired:
  "resultExpires c tid = Some t \<Longrightarrow> t < now \<Longrightarrow> getAck now c tid = None"
  by (simp add: getAck_def split: option.splits)

text \<open>The polls that neither find an ack nor end the wait are passed over.\<close>

lemma operationResultLoop_waits:
  assumes "\<forall>q \<in> set pre. getAck (p_now q) (p_cache q) tid = None \<and> \<not> p_done q"
  shows "operationResultLoop tid (pre @ rest) = operationResultLoop tid rest"
  using assms by (induction pre) auto

lemma getAck_live:
  "resultCache c tid = Some a \<Longrightarrow> resultExpires c tid = Some t \<Longrightarrow> now \<le> t
     \<Longrightarrow> getAck now c tid = Some a"
  by (simp add: getAck_def)

lemma getAck_sound:
  "getAck now c tid = Some a \<Longrightarrow> resultCache c tid = Some a"
  by (auto simp: getAck_def Let_def split: option.splits if_splits)

lemma getAck_putAck:
  "getAck now (putAck t0 a c) (Ack_TraceID a) = (if now \<le> t0 + cacheTTL then Some a else None)"
  by (simp add: getAck_def putAck_def)

text \<open>
  Claim C8, amended. \<open>GET /operations/{trace_id}\<close> answers at the first poll that finds
  an ack or ends the wait, the polls before it finding none and waiting on: 200 with the
  ack as body if that poll finds one, 204 without a body if it finds none and the
  long-poll budget is over (or the request cancelled); while every poll so far waits there
  is no answer yet. So whenever some poll ends the wait there is an answer, and it is 200
  with a found ack or 204; it is never anything else, so never 410. A poll finds the ack
  stored under the trace id as long as its expiry has not passed: an ack put at some time
  is found until the TTL has elapsed since then, and from then on, as for an id that was
  never cached, nothing is found and the answer is 204.
\<close>

theorem operation_result_200_or_204:
  "((\<forall>q \<in> set pre. getAck (p_now q) (p_cache q) (TrimPrefix path ''/v1/operations/'') = None
        \<and> \<not> p_done q) \<longrightarrow>
      (getAck (p_now p) (p_cache p) (TrimPrefix path ''/v1/operations/'') = Some a \<longrightarrow>
         operationResultHandler path (pre @ p # post) =
           Some \<lparr>code = 200, content_type = Some ''application/json'', body = Some a\<rparr>) \<and>
      (getAck (p_now p) (p_cache p) (TrimPrefix path ''/v1/operations/'') = None \<and> p_done p \<longrightarrow>
         operationResultHandler path (pre @ p # post) =
           Some \<lparr>code = 204, content_type = None, body = None\<rparr>) \<and>
      operationResultHandler path pre = None) \<and>
   ((\<exists>p \<in> set ps. p_done p) \<longrightarrow>
      (\<exists>r. operationResultHandler path ps = Some r \<and>
         ((code r = 200 \<and> body r \<noteq> None \<and>
             (\<exists>p \<in> set ps. body r = getAck (p_now p) (p_cache p) (TrimPrefix path ''/v1/operations/'')))
          \<or> (code r = 204 \<and> body r = None \<and>
             (\<exists>p \<in> set ps. p_done p \<and>
                getAck (p_now p) (p_cache p) (TrimPrefix path ''/v1/operations/'') = None))))) \<and>
   (operationResultHandler path ps = Some r' \<longrightarrow> code r' = 200 \<or> code r' = 204) \<and>
   (resultExpires c tid = Some t \<and> t < now \<longrightarrow> getAck now c tid = None) \<and>
   (resultCache c tid = None \<longrightarrow> getAck now c tid = None) \<and>
   (resultCache c tid = Some b \<and> resultExpires c tid = Some t \<and> now \<le> t \<longrightarrow>
      getAck now c tid = Some b) \<and>
   (getAck now c tid = Some b \<longrightarrow> resultCache c tid = Some b) \<and>
   getAck now (putAck t0 b c) (Ack_TraceID b) = (if now \<le> t0 + cacheTTL then Some b else None)"
proof -
  let ?tid = "TrimPrefix path ''/v1/operations/''"
  have first: "(getAck (p_now p) (p_cache p) ?tid = Some a \<longrightarrow>
         operationResultHandler path (pre @ p # post) =
           Some \<lparr>code = 200, content_type = Some ''application/json'', body = Some a\<rparr>) \<and>
      (getAck (p_now p) (p_cache p) ?tid = None \<and> p_done p \<longrightarrow>
         operationResultHandler path (pre @ p # post) =
           Some \<lparr>code = 204, content_type = None, body = None\<rparr>) \<and>
      operationResultHandler path pre = None"
    if w: "\<forall>q \<in> set pre. getAck (p_now q) (p_cache q) ?tid = None \<and> \<not> p_done q"
  proof -
    have "operationResultLoop ?tid (pre @ p # post) = operationResultLoop ?tid (p # post)"
      using w by (rule operationResultLoop_waits)
    moreover have "operationResultLoop ?tid (pre @ []) = operationResultLoop ?tid []"
      using w by (rule operationResultLoop_waits)
    ultimately show ?thesis by (simp add: operationResultHandler_def)
  qed
  have some: "\<exists>r. operationResultHandler path ps = Some r \<and>
         ((code r = 200 \<and> body r \<noteq> None \<and>
             (\<exists>p \<in> set ps. body r = getAck (p_now p) (p_cache p) ?tid))
          \<or> (code r = 204 \<and> body r = None \<and>
             (\<exists>p \<in> set ps. p_done p \<and> getAck (p_now p) (p_cache p) ?tid = None)))"
    if d: "\<exists>p \<in> set ps. p_done p"
  proof -
    from operationResultLoop_answers[OF d]
    obtain r where r: "operationResultLoop ?tid ps = Some r" by blast
    from operationResultLoop_answer[OF r] r show ?thesis
      unfolding operationResultHandler_def by blast
  qed
  have codes: "code r' = 200 \<or> code r' = 204" if "operationResultHandler path ps = Some r'"
  proof -
    from that have "operationResultLoop ?tid ps = Some r'"
      by (simp add: operationResultHandler_def)
    from operationResultLoop_answer[OF this] show ?thesis by blast
  qed
  have absent: "getAck now c tid = None" if "resultCache c tid = None"
    using that by (simp add: getAck_def)
  from first some codes absent getAck_expired getAck_live getAck_sound getAck_putAck
  show ?thesis by blast
qed

theorem operation_result_200_or_204_witness:
  "operationResultHandler ''/v1/operations/t1''
     [\<lparr>p_now = 3, p_cache = cache0, p_done = False\<rparr>,
      \<lparr>p_now = 9, p_cache = putAck 5 ack_t1 cache0, p_done = False\<rparr>,
      \<lparr>p_now = cacheTTL + 6, p_cache = putAck 5 ack_t1 cache0, p_done = True\<rparr>]
     = Some \<lparr>code = 200, content_type = Some ''application/json'', body = Some ack_t1\<rparr> \<and>
   operationResultHandler ''/v1/operations/t1''
     [\<lparr>p_now = 3, p_cache = cache0, p_done = False\<rparr>,
      \<lparr>p_now = 9, p_cache = cache0, p_done = True\<rparr>]
     = Some \<lparr>code = 204, content_type = None, body = None\<rparr> \<and>
   operationResultHandler ''/v1/operations/t1''
     [\<lparr>p_now = 3, p_cache = cache0, p_done = False\<rparr>] = None \<and>
   getAck 9 (putAck 5 ack_t1 cache0) ''t1'' = Some ack_t1 \<and>
   getAck 9 cache0 ''t1'' = None \<and>
   resultExpires (putAck 5 ack_t1 cache0) ''t1'' = Some (cacheTTL + 5) \<and>
   cacheTTL + 5 < cacheTTL + 6 \<and>
   getAck (cacheTTL + 6) (putAck 5 ack_t1 cache0) ''t1'' = None"
proof -
  let ?path = "''/v1/operations/t1''"
  let ?w = "\<lparr>p_now = 3, p_cache = cache0, p_done = False\<rparr>"
  let ?found = "\<lparr>p_now = 9, p_cache = putAck 5 ack_t1 cache0, p_done = False\<rparr>"
  let ?gone = "\<lparr>p_now = cacheTTL + 6, p_cache = putAck 5 ack_t1 cache0, p_done = True\<rparr>"
  let ?empty = "\<lparr>p_now = 9, p_cache = cache0, p_done = True\<rparr>"
  have tid: "TrimPrefix ?path ''/v1/operations/'' = ''t1''" by (simp add: TrimPrefix_def)
  have id1: "Ack_TraceID ack_t1 = ''t1''" by (simp add: ack_t1_def)
  have rc0: "resultCache cache0 ''t1'' = None" by (simp add: cache0_def)
  have e: "resultExpires (putAck 5 ack_t1 cache0) ''t1'' = Some (cacheTTL + 5)"
    by (simp add: putAck_def gateway_inputs)
  note t1 = operation_result_200_or_204
      [where pre = "[?w]" and path = ?path and p = ?found and a = ack_t1 and post = "[?gone]"
         and ps = "[?w, ?found, ?gone]" and c = "putAck 5 ack_t1 cache0" and tid = "''t1''"
         and t = "cacheTTL + 5" and now = "cacheTTL + 6" and b = ack_t1 and t0 = 5]
  note t2 = operation_result_200_or_204
      [where pre = "[?w]" and path = ?path and p = ?empty and post = "[]"
         and ps = "[?w, ?empty]" and c = cache0 and tid = "''t1''" and now = 9
         and b = ack_t1 and t0 = 5]
  have g0: "getAck 9 cache0 ''t1'' = None" using t2 rc0 by blast
  have g3: "getAck 3 cache0 ''t1'' = None"
    using operation_result_200_or_204 [where c = cache0 and tid = "''t1''" and now = 3] rc0
    by blast
  have g1: "getAck 9 (putAck 5 ack_t1 cache0) ''t1'' = Some ack_t1"
    using operation_result_200_or_204 [where c = cache0 and b = ack_t1 and t0 = 5 and now = 9] id1
    by (simp add: cacheTTL_def)
  have g2: "getAck (cacheTTL + 6) (putAck 5 ack_t1 cache0) ''t1'' = None"
    using t1 e by simp
  have waits: "\<forall>q \<in> set [?w]. getAck (p_now q) (p_cache q) (TrimPrefix ?path ''/v1/operations/'') = None
        \<and> \<not> p_done q"
    using g3 tid by simp
  have a1: "operationResultHandler ?path ([?w] @ ?found # [?gone]) =
      Some \<lparr>code = 200, content_type = Some ''application/json'', body = Some ack_t1\<rparr>"
    using t1 waits g1 tid by simp
  have a2: "operationResultHandler ?path ([?w] @ ?empty # []) =
      Some \<lparr>code = 204, content_type = None, body = None\<rparr>"
    using t2 waits g0 tid by simp
  have a3: "operationResultHandler ?path [?w] = None"
    using t2 waits by blast
  from a1 a2 a3 g0 g1 g2 e show ?thesis by simp
qed

subsection \<open>The ack consumer\<close>

text \<open>
  Claim C9, as stated, fails in its last part: an ack message that does not decode is
  neither cached nor marked, but the next message of the partition is, which moves the
  position past both; after a restart the first message is not delivered again.
\<close>

theorem bad_ack_not_redelivered:
  "snd (ackConsumeOne demo_unmarshalAck 10 (cache0, 0) ackmsg_bad) = [] \<and>
   ackConsumeClaim demo_unmarshalAck (cache0, 0) [(ackmsg_bad, 10), (ackmsg_good, 20)]
     = (putAck 20 ack_t1 cache0, 2) \<and>
   \<not> redelivered (snd (ackConsumeClaim demo_unmarshalAck (cache0, 0)
                          [(ackmsg_bad, 10), (ackmsg_good, 20)])) ackmsg_bad"
  by (simp add: ackConsumeOne_def markOffset_def redelivered_def gateway_inputs)

lemma ackConsumeOne_pos_mono: "snd st \<le> snd (fst (ackConsumeOne u now st msg))"
  by (simp add: ackConsumeOne_def markOffset_def split: option.splits)

lemma ackConsumeClaim_pos_mono: "snd st \<le> snd (ackConsumeClaim u st reads)"
proof (induction reads arbitrary: st)
  case Nil
  then show ?case by simp
next
  case (Cons a reads)
  obtain msg now where a: "a = (msg, now)" by (cases a)
  have "snd st \<le> snd (fst (ackConsumeOne u now st msg))" by (rule ackConsumeOne_pos_mono)
  also have "\<dots> \<le> snd (ackConsumeClaim u (fst (ackConsumeOne u now st msg)) reads)"
    by (rule Cons.IH)
  finally show ?case by (simp add: a)
qed

lemma ackConsumeClaim_marked:
  assumes "(good, now) \<in> set reads" and "ackValid u good"
  shows "Offset good < snd (ackConsumeClaim u st reads)"
  using assms
proof (induction reads arbitrary: st)
  case Nil
  then show ?case by simp
next
  case (Cons a reads)
  obtain msg t where a: "a = (msg, t)" by (cases a)
  show ?case
  proof (cases "(good, now) = a")
    case True
    with a have "msg = good" by simp
    with Cons.prems(2) have "Offset good < snd (fst (ackConsumeOne u t st msg))"
      by (auto simp: ackConsumeOne_def ackValid_def markOffset_def split: option.splits)
    also have "\<dots> \<le> snd (ackConsumeClaim u (fst (ackConsumeOne u t st msg)) reads)"
      by (rule ackConsumeClaim_pos_mono)
    finally show ?thesis by (simp add: a)
  next
    case False
    with Cons.prems have "(good, now) \<in> set reads" by auto
    from Cons.IH[OF this Cons.prems(2)] show ?thesis by (simp add: a)
  qed
qed

lemma ackConsumeClaim_all_fail:
  "\<forall>(m, t) \<in> set reads. \<not> ackValid u m \<Longrightarrow> ackConsumeClaim u st reads = st"
proof (induction reads arbitrary: st)
  case Nil
  then show ?case by simp
next
  case (Cons a reads)
  obtain msg t where a: "a = (msg, t)" by (cases a)
  with Cons.prems have "\<not> ackValid u msg" by simp
  then have "fst (ackConsumeOne u t st msg) = st"
    by (auto simp: ackConsumeOne_def ackValid_def split: option.splits)
  with Cons a show ?case by simp
qed

text \<open>What one iteration does to the state, by the validity of its message.\<close>

lemma ackConsumeOne_valid:
  assumes "u (Value msg) = Some a" and "Ack_TraceID a \<noteq> []"
  shows "fst (ackConsumeOne u now st msg) = (putAck now a (fst st), max (snd st) (Offset msg + 1))"
  using assms by (simp add: ackConsumeOne_def markOffset_def)

lemma ackConsumeOne_invalid:
  assumes "\<not> ackValid u msg"
  shows "fst (ackConsumeOne u now st msg) = st"
  using assms by (auto simp: ackConsumeOne_def ackValid_def split: option.splits)

text \<open>The position after a run, as seen by a message: it is delivered again exactly when
  it was going to be before the run and no valid message at its offset or above was in it.\<close>

lemma ackConsumeClaim_redelivered:
  "redelivered (snd (ackConsumeClaim u st reads)) bad \<longleftrightarrow>
     redelivered (snd st) bad \<and> (\<forall>(m, t) \<in> set reads. ackValid u m \<longrightarrow> Offset m < Offset bad)"
proof (induction reads arbitrary: st)
  case Nil
  then show ?case by simp
next
  case (Cons x reads)
  obtain msg t where x: "x = (msg, t)" by (cases x)
  have step: "redelivered (snd (fst (ackConsumeOne u t st msg))) bad \<longleftrightarrow>
      redelivered (snd st) bad \<and> (ackValid u msg \<longrightarrow> Offset msg < Offset bad)"
  proof (cases "ackValid u msg")
    case True
    then obtain a where "u (Value msg) = Some a" and "Ack_TraceID a \<noteq> []"
      by (auto simp: ackValid_def split: option.splits)
    then have "fst (ackConsumeOne u t st msg) =
        (putAck t a (fst st), max (snd st) (Offset msg + 1))"
      by (rule ackConsumeOne_valid)
    with True show ?thesis
      by (auto simp: redelivered_def)
  next
    case False
    from ackConsumeOne_invalid[OF this] False show ?thesis by simp
  qed
  have "redelivered (snd (ackConsumeClaim u st (x # reads))) bad \<longleftrightarrow>
      redelivered (snd (ackConsumeClaim u (fst (ackConsumeOne u t st msg)) reads)) bad"
    by (simp add: x)
  also have "\<dots> \<longleftrightarrow> redelivered (snd (fst (ackConsumeOne u t st msg))) bad \<and>
      (\<forall>(m, t) \<in> set reads. ackValid u m \<longrightarrow> Offset m < Offset bad)"
    by (rule Cons.IH)
  finally show ?case using step by (auto simp: x)
qed

lemma ackConsumeClaim_append:
  "ackConsumeClaim u st (xs @ ys) = ackConsumeClaim u (ackConsumeClaim u st xs) ys"
proof (induction xs arbitrary: st)
  case Nil
  then show ?case by simp
next
  case (Cons x xs)
  obtain msg t where x: "x = (msg, t)" by (cases x)
  show ?case by (simp add: x Cons.IH)
qed

text \<open>A trace id that no valid message of a run carries keeps its cache entry.\<close>

lemma ackConsumeClaim_untouched:
  assumes "\<forall>(m, t) \<in> set reads. \<forall>a. u (Value m) = Some a \<and> Ack_TraceID a \<noteq> [] \<longrightarrow> Ack_TraceID a \<noteq> tid"
  shows "resultCache (fst (ackConsumeClaim u st reads)) tid = resultCache (fst st) tid \<and>
         resultExpires (fst (ackConsumeClaim u st reads)) tid = resultExpires (fst st) tid"
  using assms
proof (induction reads arbitrary: st)
  case Nil
  then show ?case by simp
next
  case (Cons x reads)
  obtain msg t where x: "x = (msg, t)" by (cases x)
  have one: "resultCache (fst (fst (ackConsumeOne u t st msg))) tid = resultCache (fst st) tid \<and>
         resultExpires (fst (fst (ackConsumeOne u t st msg))) tid = resultExpires (fst st) tid"
  proof (cases "ackValid u msg")
    case True
    then obtain a where a: "u (Value msg) = Some a" "Ack_TraceID a \<noteq> []"
      by (auto simp: ackValid_def split: option.splits)
    with Cons.prems x have "Ack_TraceID a \<noteq> tid" by auto
    moreover from a have "fst (ackConsumeOne u t st msg) =
        (putAck t a (fst st), max (snd st) (Offset msg + 1))"
      by (rule ackConsumeOne_valid)
    ultimately show ?thesis by (simp add: putAck_def)
  next
    case False
    from ackConsumeOne_invalid[OF this] show ?thesis by simp
  qed
  from Cons.prems have "\<forall>(m, t) \<in> set reads. \<forall>a. u (Value m) = Some a \<and> Ack_TraceID a \<noteq> []
      \<longrightarrow> Ack_TraceID a \<noteq> tid"
    by simp
  from Cons.IH[OF this, of "fst (ackConsumeOne u t st msg)"] one show ?case by (simp add: x)
qed

text \<open>The last valid message of a run that carries a trace id decides its cache entry.\<close>

lemma ackConsumeClaim_last:
  assumes "u (Value msg) = Some a" and "Ack_TraceID a \<noteq> []"
    and "\<forall>(m, t) \<in> set post. \<forall>a'. u (Value m) = Some a' \<and> Ack_TraceID a' \<noteq> []
           \<longrightarrow> Ack_TraceID a' \<noteq> Ack_TraceID a"
  shows "resultCache (fst (ackConsumeClaim u st (pre @ (msg, now) # post))) (Ack_TraceID a) = Some a \<and>
         resultExpires (fst (ackConsumeClaim u st (pre @ (msg, now) # post))) (Ack_TraceID a)
           = Some (now + cacheTTL)"
proof -
  define s1 where "s1 = ackConsumeClaim u st pre"
  define s2 where "s2 = fst (ackConsumeOne u now s1 msg)"
  have run: "ackConsumeClaim u st (pre @ (msg, now) # post) = ackConsumeClaim u s2 post"
    by (simp add: ackConsumeClaim_append s1_def s2_def)
  from assms(1,2) have "fst (ackConsumeOne u now s1 msg) =
      (putAck now a (fst s1), max (snd s1) (Offset msg + 1))"
    by (rule ackConsumeOne_valid)
  then have "resultCache (fst s2) (Ack_TraceID a) = Some a \<and>
        resultExpires (fst s2) (Ack_TraceID a) = Some (now + cacheTTL)"
    by (simp add: s2_def putAck_def)
  with ackConsumeClaim_untouched[OF assms(3), of s2] run show ?thesis by simp
qed

text \<open>
  Claim C9, amended. The ack consumer caches an ack under its trace id, with an expiry
  one TTL after the time of the iteration, and marks the message exactly when the value
  decodes into an ack with a non-empty trace id; a message failing either check changes
  neither the cache nor the marked position. After a run, the cache entry of a trace id is
  the ack of the last valid message that carries it, and is what it was before the run if
  no valid message carries it. A message is delivered again after a restart exactly when
  the position before the run was at or below its offset and no valid message at its
  offset or above was consumed in the run: so a message that fails the checks is
  delivered again as long as no message at a higher offset has been marked, and not once
  one has.
\<close>

theorem ack_consumer_caches_iff_valid:
  "(ackValid u msg \<longrightarrow>
      (\<exists>a. u (Value msg) = Some a \<and> Ack_TraceID a \<noteq> [] \<and>
         ackConsumeOne u now st msg =
           ((putAck now a (fst st), max (snd st) (Offset msg + 1)),
            [CachePut a, Marked (Offset msg)]) \<and>
         resultCache (putAck now a (fst st)) = (resultCache (fst st))(Ack_TraceID a \<mapsto> a) \<and>
         resultExpires (putAck now a (fst st)) =
           (resultExpires (fst st))(Ack_TraceID a \<mapsto> now + cacheTTL))) \<and>
   (\<not> ackValid u msg \<longrightarrow> ackConsumeOne u now st msg = (st, [])) \<and>
   ((\<forall>(m, t) \<in> set reads. \<not> ackValid u m) \<longrightarrow> ackConsumeClaim u st reads = st) \<and>
   ((good, now') \<in> set reads \<and> ackValid u good \<and> Offset bad \<le> Offset good \<longrightarrow>
      \<not> redelivered (snd (ackConsumeClaim u st reads)) bad) \<and>
   (redelivered (snd (ackConsumeClaim u st reads)) bad \<longleftrightarrow>
      redelivered (snd st) bad \<and>
      (\<forall>(m, t) \<in> set reads. ackValid u m \<longrightarrow> Offset m < Offset bad)) \<and>
   (u (Value msg) = Some b \<and> Ack_TraceID b \<noteq> [] \<and>
    (\<forall>(m, t) \<in> set post. \<forall>a'. u (Value m) = Some a' \<and> Ack_TraceID a' \<noteq> []
        \<longrightarrow> Ack_TraceID a' \<noteq> Ack_TraceID b) \<longrightarrow>
      resultCache (fst (ackConsumeClaim u st (pre @ (msg, now) # post))) (Ack_TraceID b) = Some b \<and>
      resultExpires (fst (ackConsumeClaim u st (pre @ (msg, now) # post))) (Ack_TraceID b)
        = Some (now + cacheTTL)) \<and>
   ((\<forall>(m, t) \<in> set reads. \<forall>a'. u (Value m) = Some a' \<and> Ack_TraceID a' \<noteq> []
        \<longrightarrow> Ack_TraceID a' \<noteq> tid) \<longrightarrow>
      resultCache (fst (ackConsumeClaim u st reads)) tid = resultCache (fst st) tid \<and>
      resultExpires (fst (ackConsumeClaim u st reads)) tid = resultExpires (fst st) tid)"
proof -
  have c1: "\<exists>a. u (Value msg) = Some a \<and> Ack_TraceID a \<noteq> [] \<and>
         ackConsumeOne u now st msg =
           ((putAck now a (fst st), max (snd st) (Offset msg + 1)),
            [CachePut a, Marked (Offset msg)]) \<and>
         resultCache (putAck now a (fst st)) = (resultCache (fst st))(Ack_TraceID a \<mapsto> a) \<and>
         resultExpires (putAck now a (fst st)) =
           (resultExpires (fst st))(Ack_TraceID a \<mapsto> now + cacheTTL)"
    if "ackValid u msg"
    using that
    by (auto simp: ackValid_def ackConsumeOne_def markOffset_def putAck_def split: option.splits)
  have c2: "ackConsumeOne u now st msg = (st, [])" if "\<not> ackValid u msg"
    using that by (auto simp: ackValid_def ackConsumeOne_def split: option.splits)
  have c3: "ackConsumeClaim u st reads = st" if "\<forall>(m, t) \<in> set reads. \<not> ackValid u m"
    using that by (rule ackConsumeClaim_all_fail)
  have c4: "\<not> redelivered (snd (ackConsumeClaim u st reads)) bad"
    if h: "(good, now') \<in> set reads \<and> ackValid u good \<and> Offset bad \<le> Offset good"
  proof -
    from h have "Offset good < snd (ackConsumeClaim u st reads)"
      using ackConsumeClaim_marked by blast
    with h show ?thesis by (simp add: redelivered_def)
  qed
  have c6: "resultCache (fst (ackConsumeClaim u st (pre @ (msg, now) # post))) (Ack_TraceID b) = Some b \<and>
      resultExpires (fst (ackConsumeClaim u st (pre @ (msg, now) # post))) (Ack_TraceID b)
        = Some (now + cacheTTL)"
    if "u (Value msg) = Some b \<and> Ack_TraceID b \<noteq> [] \<and>
    (\<forall>(m, t) \<in> set post. \<forall>a'. u (Value m) = Some a' \<and> Ack_TraceID a' \<noteq> []
        \<longrightarrow> Ack_TraceID a' \<noteq> Ack_TraceID b)"
    using that ackConsumeClaim_last[of u msg b post st pre now] by blast
  have c7: "resultCache (fst (ackConsumeClaim u st reads)) tid = resultCache (fst st) tid \<and>
      resultExpires (fst (ackConsumeClaim u st reads)) tid = resultExpires (fst st) tid"
    if "\<forall>(m, t) \<in> set reads. \<forall>a'. u (Value m) = Some a' \<and> Ack_TraceID a' \<noteq> []
        \<longrightarrow> Ack_TraceID a' \<noteq> tid"
    using that by (rule ackConsumeClaim_untouched)
  note c5 = ackConsumeClaim_redelivered[of u st reads bad]
  show ?thesis
    apply (intro conjI)
          apply (rule impI, erule c1)
         apply (rule impI, erule c2)
        apply (rule impI, erule c3)
       apply (rule impI, erule c4)
      apply (rule c5)
     apply (rule impI, erule c6)
    apply (rule impI, erule c7)
    done
qed

theorem ack_consumer_caches_iff_valid_witness:
  "ackValid demo_unmarshalAck ackmsg_good \<and> \<not> ackValid demo_unmarshalAck ackmsg_bad \<and>
   ackConsumeOne demo_unmarshalAck 20 (cache0, 0) ackmsg_good =
     ((putAck 20 ack_t1 cache0, 2), [CachePut ack_t1, Marked 1]) \<and>
   ackConsumeOne demo_unmarshalAck 10 (cache0, 0) ackmsg_bad = ((cache0, 0), []) \<and>
   ackConsumeClaim demo_unmarshalAck (cache0, 0) [(ackmsg_bad, 10), (ackmsg_bad, 11)] = (cache0, 0) \<and>
   redelivered 0 ackmsg_bad \<and>
   (ackmsg_good, 20) \<in> set [(ackmsg_bad, 10), (ackmsg_good, 20)] \<and>
   Offset ackmsg_bad \<le> Offset ackmsg_good \<and>
   \<not> redelivered (snd (ackConsumeClaim demo_unmarshalAck (cache0, 0)
                          [(ackmsg_bad, 10), (ackmsg_good, 20)])) ackmsg_bad \<and>
   redelivered (snd (ackConsumeClaim demo_unmarshalAck (cache0, 0)
                       [(ackmsg_good, 20), (ackmsg_bad\<lparr>Offset := 2\<rparr>, 30)]))
     (ackmsg_bad\<lparr>Offset := 2\<rparr>) \<and>
   resultCache (fst (ackConsumeClaim demo_unmarshalAck (cache0, 0)
                       [(ackmsg_bad, 10), (ackmsg_good, 20), (ackmsg_bad, 30)])) ''t1''
     = Some ack_t1 \<and>
   resultExpires (fst (ackConsumeClaim demo_unmarshalAck (cache0, 0)
                         [(ackmsg_bad, 10), (ackmsg_good, 20), (ackmsg_bad, 30)])) ''t1''
     = Some (20 + cacheTTL) \<and>
   resultCache (fst (ackConsumeClaim demo_unmarshalAck (cache0, 0)
                       [(ackmsg_bad, 10), (ackmsg_good, 20), (ackmsg_bad, 30)])) ''t9''
     = None"
proof -
  let ?bad2 = "ackmsg_bad\<lparr>Offset := 2\<rparr>"
  have g: "ackValid demo_unmarshalAck ackmsg_good"
    by (simp add: ackValid_def gateway_inputs)
  have b: "\<not> ackValid demo_unmarshalAck ackmsg_bad"
    by (simp add: ackValid_def gateway_inputs)
  have b2: "\<not> ackValid demo_unmarshalAck ?bad2"
    by (simp add: ackValid_def gateway_inputs)
  have dec: "demo_unmarshalAck (Value ackmsg_good) = Some ack_t1"
    by (simp add: gateway_inputs)
  have decb: "demo_unmarshalAck (Value ackmsg_bad) = None"
    by (simp add: gateway_inputs)
  have id1: "Ack_TraceID ack_t1 = ''t1''" by (simp add: ack_t1_def)
  have off: "Offset ackmsg_bad \<le> Offset ackmsg_good \<and> Offset ackmsg_good = 1
      \<and> Offset ?bad2 = 2"
    by (simp add: gateway_inputs)
  have r0: "redelivered 0 ackmsg_bad \<and> redelivered 0 ?bad2" by (simp add: redelivered_def)
  note t1 = ack_consumer_caches_iff_valid
      [where u = demo_unmarshalAck and msg = ackmsg_good and now = 20 and st = "(cache0, 0)"
         and reads = "[(ackmsg_bad, 10), (ackmsg_good, 20)]" and good = ackmsg_good
         and now' = 20 and bad = ackmsg_bad and b = ack_t1 and pre = "[(ackmsg_bad, 10)]"
         and post = "[(ackmsg_bad, 30)]" and tid = "''t9''"]
  note t2 = ack_consumer_caches_iff_valid
      [where u = demo_unmarshalAck and msg = ackmsg_bad and now = 10 and st = "(cache0, 0)"
         and reads = "[(ackmsg_bad, 10), (ackmsg_bad, 11)]" and good = ackmsg_good
         and now' = 20 and bad = ackmsg_bad]
  note t3 = ack_consumer_caches_iff_valid
      [where u = demo_unmarshalAck and st = "(cache0, 0)"
         and reads = "[(ackmsg_good, 20), (?bad2, 30)]" and bad = ?bad2]
  note t4 = ack_consumer_caches_iff_valid
      [where u = demo_unmarshalAck and st = "(cache0, 0)"
         and reads = "[(ackmsg_bad, 10), (ackmsg_good, 20), (ackmsg_bad, 30)]" and tid = "''t9''"]
  have a1: "ackConsumeOne demo_unmarshalAck 20 (cache0, 0) ackmsg_good =
     ((putAck 20 ack_t1 cache0, 2), [CachePut ack_t1, Marked 1])"
    using t1 g dec off by auto
  have a2: "ackConsumeOne demo_unmarshalAck 10 (cache0, 0) ackmsg_bad = ((cache0, 0), [])"
    using t2 b by blast
  have "\<forall>(m, t) \<in> set [(ackmsg_bad, 10::nat), (ackmsg_bad, 11)]. \<not> ackValid demo_unmarshalAck m"
    using b by simp
  with t2 have a3: "ackConsumeClaim demo_unmarshalAck (cache0, 0)
      [(ackmsg_bad, 10), (ackmsg_bad, 11)] = (cache0, 0)"
    by blast
  have "(ackmsg_good, 20) \<in> set [(ackmsg_bad, 10::nat), (ackmsg_good, 20)]" by simp
  with t1 g off have a4: "\<not> redelivered (snd (ackConsumeClaim demo_unmarshalAck (cache0, 0)
                          [(ackmsg_bad, 10), (ackmsg_good, 20)])) ackmsg_bad"
    by blast
  have "\<forall>(m, t) \<in> set [(ackmsg_good, 20::nat), (?bad2, 30)].
          ackValid demo_unmarshalAck m \<longrightarrow> Offset m < Offset ?bad2"
    using b2 off by simp
  with t3 r0 have a5: "redelivered (snd (ackConsumeClaim demo_unmarshalAck (cache0, 0)
                       [(ackmsg_good, 20), (?bad2, 30)])) ?bad2"
    by simp
  have "\<forall>(m, t) \<in> set [(ackmsg_bad, 30::nat)]. \<forall>a'.
          demo_unmarshalAck (Value m) = Some a' \<and> Ack_TraceID a' \<noteq> []
            \<longrightarrow> Ack_TraceID a' \<noteq> Ack_TraceID ack_t1"
    using decb by simp
  with t1 dec id1 have a6:
    "resultCache (fst (ackConsumeClaim demo_unmarshalAck (cache0, 0)
        ([(ackmsg_bad, 10)] @ (ackmsg_good, 20) # [(ackmsg_bad, 30)]))) ''t1'' = Some ack_t1 \<and>
     resultExpires (fst (ackConsumeClaim demo_unmarshalAck (cache0, 0)
        ([(ackmsg_bad, 10)] @ (ackmsg_good, 20) # [(ackmsg_bad, 30)]))) ''t1''
       = Some (20 + cacheTTL)"
    by simp
  have "\<forall>(m, t) \<in> set [(ackmsg_bad, 10::nat), (ackmsg_good, 20), (ackmsg_bad, 30)]. \<forall>a'.
          demo_unmarshalAck (Value m) = Some a' \<and> Ack_TraceID a' \<noteq> []
            \<longrightarrow> Ack_TraceID a' \<noteq> ''t9''"
    using decb dec id1 by simp
  with t4 have a7: "resultCache (fst (ackConsumeClaim demo_unmarshalAck (cache0, 0)
        [(ackmsg_bad, 10), (ackmsg_good, 20), (ackmsg_bad, 30)])) ''t9'' = resultCache cache0 ''t9''"
    by simp
  have rc0: "resultCache cache0 ''t9'' = None" by (simp add: cache0_def)
  from g b a1 a2 a3 a4 a5 a6 a7 rc0 r0 off show ?thesis by simp
qed

section \<open>Properties of the staged-retry demo and of the saga lab\<close>

lemmas retry_defs = processOne_def businessLogic_def publishNextRetry_def parseAttempt_def
  Next_def Stages_def requeueOne_def delivered_def HeaderAttempt_def HeaderError_def Let_def

lemma Atoi_1: "Atoi ''1'' = Some 1"
  by (simp add: Atoi_def parse_decimal_def is_digit_def digits_val_def digit_val_def)

lemma Atoi_3: "Atoi ''3'' = Some 3"
  by (simp add: Atoi_def parse_decimal_def is_digit_def digits_val_def digit_val_def)

lemma Itoa_small: "Itoa 1 = ''1''" "Itoa 2 = ''2''" "Itoa 3 = ''3''"
  by (simp_all add: Itoa_def nat_digits.simps digit_char_def)

lemmas saga_inputs = event_json_def event_s1_def demo_unmarshalEvent_def step5_fatal_def
  msg_step4_def replayer_cfg_def msg_dlq_def

lemma ParseInt_5: "ParseInt_value ''5'' = 5"
  by (simp add: ParseInt_value_def parse_decimal_def is_digit_def digits_val_def digit_val_def)

subsection \<open>Retry hops\<close>

text \<open>Once the first attempt header reads 1, every further failure goes to the 30 s stage
  and leaves a message whose first attempt header still reads 1.\<close>

lemma stuck_hop:
  assumes "Headers msg = (''x-retry-attempt'', ''1'') # hs" and "Value msg = ''fail:x''"
  shows "processOne None msg =
           Some (Some \<lparr>Topic = ''events.v1.retry.30s'', Key = Key msg, Value = ''fail:x'',
                       Headers = (''x-retry-attempt'', ''1'') # hs @
                         [(''x-retry-attempt'', ''2''), (''x-error'', ''downstream: simulated failure'')]\<rparr>,
                 True)"
  using assms by (simp add: retry_defs Atoi_1 Itoa_small)

lemma stuck_hops:
  assumes "Headers msg = (''x-retry-attempt'', ''1'') # hs" and "Value msg = ''fail:x''"
  shows "map Topic (failing_hops n msg) = replicate n ''events.v1.retry.30s'' \<and>
         map (\<lambda>m. parseAttemptHeaders (Headers m)) (failing_hops n msg) = replicate n 1"
  using assms
proof (induction n arbitrary: msg hs)
  case 0
  then show ?case by simp
next
  case (Suc n)
  let ?out = "\<lparr>Topic = ''events.v1.retry.30s'', Key = Key msg, Value = ''fail:x'',
                Headers = (''x-retry-attempt'', ''1'') # hs @
                  [(''x-retry-attempt'', ''2''), (''x-error'', ''downstream: simulated failure'')]\<rparr>"
  let ?next = "delivered 0 \<lparr>Topic = ''events.v1'', Key = Key msg, Value = ''fail:x'',
                Headers = (''x-retry-attempt'', ''1'') # hs @
                  [(''x-retry-attempt'', ''2''), (''x-error'', ''downstream: simulated failure'')]\<rparr>"
  have p: "processOne None msg = Some (Some ?out, True)"
    using Suc.prems by (rule stuck_hop)
  have step: "failing_hops (Suc n) msg = ?out # failing_hops n ?next"
    by (simp add: p requeueOne_def delivered_def Let_def)
  have "Headers ?next = (''x-retry-attempt'', ''1'') # (hs @
                  [(''x-retry-attempt'', ''2''), (''x-error'', ''downstream: simulated failure'')])"
    and "Value ?next = ''fail:x''"
    by (simp_all add: delivered_def)
  from Suc.IH[OF this] show ?case
    unfolding step by (simp add: HeaderAttempt_def Atoi_1)
qed

lemma first_hop:
  "processOne None msg_fail =
     Some (Some \<lparr>Topic = ''events.v1.retry.5s'', Key = ''order-1'', Value = ''fail:x'',
                 Headers = [(''x-retry-attempt'', ''1''),
                            (''x-error'', ''downstream: simulated failure'')]\<rparr>, True)"
  by (simp add: msg_fail_def retry_defs Itoa_small)

text \<open>
  Claim C3. The claim asks that the attempt grow at each hop and that a message that
  keeps failing reach the dead-letter topic once. \<open>publishNextRetry\<close> appends the new
  attempt header after the old ones and \<open>parseAttempt\<close> returns the first one: from the
  second hop on the attempt read is 1 for ever. A message that fails at every delivery
  goes to the 5 s stage once and then to the 30 s stage at each further delivery, however
  many there are; it never reaches the 2 min stage or the dead-letter topic.
\<close>

theorem failing_message_never_reaches_dlq:
  "map Topic (failing_hops (Suc n) msg_fail) =
     ''events.v1.retry.5s'' # replicate n ''events.v1.retry.30s'' \<and>
   map (\<lambda>m. parseAttemptHeaders (Headers m)) (failing_hops (Suc n) msg_fail) = replicate (Suc n) 1 \<and>
   ''events.v1.dlq'' \<notin> set (map Topic (failing_hops (Suc n) msg_fail))"
proof -
  let ?out = "\<lparr>Topic = ''events.v1.retry.5s'', Key = ''order-1'', Value = ''fail:x'',
                 Headers = [(''x-retry-attempt'', ''1''),
                            (''x-error'', ''downstream: simulated failure'')]\<rparr>"
  let ?next = "delivered 0 \<lparr>Topic = ''events.v1'', Key = ''order-1'', Value = ''fail:x'',
                 Headers = [(''x-retry-attempt'', ''1''),
                            (''x-error'', ''downstream: simulated failure'')]\<rparr>"
  have step: "failing_hops (Suc n) msg_fail = ?out # failing_hops n ?next"
    by (simp add: first_hop requeueOne_def delivered_def Let_def)
  have "Headers ?next = (''x-retry-attempt'', ''1'') # [(''x-error'', ''downstream: simulated failure'')]"
    and "Value ?next = ''fail:x''"
    by (simp_all add: delivered_def)
  from stuck_hops[OF this, of n]
  have rest: "map Topic (failing_hops n ?next) = replicate n ''events.v1.retry.30s''"
    and att: "map (\<lambda>m. parseAttemptHeaders (Headers m)) (failing_hops n ?next) = replicate n 1"
    by simp_all
  have topics: "map Topic (failing_hops (Suc n) msg_fail) =
     ''events.v1.retry.5s'' # replicate n ''events.v1.retry.30s''"
    unfolding step by (simp add: rest)
  have atts: "map (\<lambda>m. parseAttemptHeaders (Headers m)) (failing_hops (Suc n) msg_fail) = replicate (Suc n) 1"
    unfolding step by (simp add: att HeaderAttempt_def Atoi_1)
  have "''events.v1.dlq'' \<notin> set (map Topic (failing_hops (Suc n) msg_fail))"
    unfolding topics by auto
  with topics atts show ?thesis by blast
qed

subsection \<open>The original topic of a dead-letter message\<close>

text \<open>
  Claim C4, as stated, fails: the retry demo's processor sends an exhausted message to
  \<open>events.v1.dlq\<close> with the incoming headers, the attempt and the error, and with no
  header that names an original topic.
\<close>

theorem retry_dlq_message_lacks_original_topic:
  "publishNextRetry None msg_exhausted ''downstream: simulated failure'' =
     Some (\<lparr>Topic = ''events.v1.dlq'', Key = ''order-1'', Value = ''fail:x'',
             Headers = [(''x-retry-attempt'', ''3''), (''x-retry-attempt'', ''3''),
                        (''x-error'', ''downstream: simulated failure'')]\<rparr>, None)"
  by (simp add: msg_exhausted_def retry_defs Atoi_3 Itoa_small)

lemma replayTarget_append:
  "replayTarget dflt (hs @ [(''x-original-topic'', t)]) = t"
  by (simp add: replayTarget_def)

lemma stepServiceOne_dlq:
  assumes "DlqWrite w ok \<in> set (stepServiceOne u enc cfg hit wrote m)"
  shows "Topic w = sc_dlqTopic cfg \<and> Key w = Key m \<and>
         (\<exists>hs. Headers w = hs @ [(''x-original-topic'', sc_topicIn cfg)])"
  using assms
  by (auto simp: stepServiceOne_def Let_def split: option.splits prod.splits if_splits)

text \<open>
  Claim C4, amended. Every message the saga lab's step service writes to its dead-letter
  topic carries \<open>x-original-topic\<close> as its last header, with the service's input topic as
  value, which is not empty and is the target the replayer computes from the headers. A
  message the retry demo's processor sends to \<open>events.v1.dlq\<close> carries the incoming
  headers followed by \<open>x-retry-attempt\<close> and \<open>x-error\<close>, and nothing else.
\<close>

theorem step_service_dlq_has_original_topic:
  "(RunStepService u enc cfg reads = Inr ws \<and> DlqWrite w ok \<in> set ws \<longrightarrow>
      Topic w = sc_dlqTopic cfg \<and> sc_topicIn cfg \<noteq> [] \<and>
      last (Headers w) = (''x-original-topic'', sc_topicIn cfg) \<and>
      replayTarget dflt (Headers w) = sc_topicIn cfg) \<and>
   (publishNextRetry send msg err = Some (out, e) \<and> Topic out = ''events.v1.dlq'' \<longrightarrow>
      Headers out = Headers msg @ [(''x-retry-attempt'', Itoa (parseAttempt msg)), (''x-error'', err)])"
proof -
  have dlq: "Topic w = sc_dlqTopic cfg \<and> sc_topicIn cfg \<noteq> [] \<and>
      last (Headers w) = (''x-original-topic'', sc_topicIn cfg) \<and>
      replayTarget dflt (Headers w) = sc_topicIn cfg"
    if h: "RunStepService u enc cfg reads = Inr ws \<and> DlqWrite w ok \<in> set ws"
  proof -
    from h have cfg: "sc_topicIn cfg \<noteq> []"
      and ws: "ws = concat (map (\<lambda>(m, hit, wrote). stepServiceOne u enc cfg hit wrote m) reads)"
      by (auto simp: RunStepService_def split: if_splits)
    with h obtain m hit wrote where "DlqWrite w ok \<in> set (stepServiceOne u enc cfg hit wrote m)"
      by auto
    from stepServiceOne_dlq[OF this] obtain hs where
      t: "Topic w = sc_dlqTopic cfg"
      and hd: "Headers w = hs @ [(''x-original-topic'', sc_topicIn cfg)]"
      by blast
    from t cfg hd show ?thesis by (simp add: replayTarget_append)
  qed
  have retry: "Headers out =
      Headers msg @ [(''x-retry-attempt'', Itoa (parseAttempt msg)), (''x-error'', err)]"
    if "publishNextRetry send msg err = Some (out, e) \<and> Topic out = ''events.v1.dlq''"
    using that
    by (auto simp: publishNextRetry_def Next_def Stages_def Let_def HeaderAttempt_def
        HeaderError_def nth_Cons' split: if_splits)
  from dlq retry show ?thesis by blast
qed

theorem step_service_dlq_has_original_topic_witness:
  "RunStepService demo_unmarshalEvent (\<lambda>e. event_json) step5_fatal [(msg_step4, False, True)] =
     Inr [DlqWrite \<lparr>Topic = ''saga.dlq'', Key = ''s1'', Value = event_json,
                     Headers = [(''x-saga-id'', ''s1''), (''x-saga-id'', ''s1''),
                                (''x-original-topic'', ''saga.step4.completed'')]\<rparr> True] \<and>
   sc_topicIn step5_fatal = ''saga.step4.completed'' \<and>
   replayTarget [] [(''x-saga-id'', ''s1''), (''x-saga-id'', ''s1''),
                    (''x-original-topic'', ''saga.step4.completed'')] = ''saga.step4.completed'' \<and>
   publishNextRetry None msg_exhausted ''boom'' =
     Some (\<lparr>Topic = ''events.v1.dlq'', Key = ''order-1'', Value = ''fail:x'',
             Headers = [(''x-retry-attempt'', ''3''), (''x-retry-attempt'', ''3''),
                        (''x-error'', ''boom'')]\<rparr>, None)"
proof -
  let ?w = "\<lparr>Topic = ''saga.dlq'', Key = ''s1'', Value = event_json,
                     Headers = [(''x-saga-id'', ''s1''), (''x-saga-id'', ''s1''),
                                (''x-original-topic'', ''saga.step4.completed'')]\<rparr>"
  let ?out = "\<lparr>Topic = ''events.v1.dlq'', Key = ''order-1'', Value = ''fail:x'',
             Headers = [(''x-retry-attempt'', ''3''), (''x-retry-attempt'', ''3''),
                        (''x-error'', ''boom'')]\<rparr>"
  have run: "RunStepService demo_unmarshalEvent (\<lambda>e. event_json) step5_fatal
      [(msg_step4, False, True)] = Inr [DlqWrite ?w True]"
    by (simp add: RunStepService_def stepServiceOne_def Process_def HasPrefix_def ParseInt_5
        wrap_int64_def saga_inputs Let_def)
  have pub: "publishNextRetry None msg_exhausted ''boom'' = Some (?out, None)"
    by (simp add: msg_exhausted_def retry_defs Atoi_3 Itoa_small)
  have mem: "DlqWrite ?w True \<in> set [DlqWrite ?w True]" by simp
  have top: "Topic ?out = ''events.v1.dlq''" by simp
  from step_service_dlq_has_original_topic
         [where u = demo_unmarshalEvent and enc = "\<lambda>e. event_json" and cfg = step5_fatal
            and reads = "[(msg_step4, False, True)]" and ws = "[DlqWrite ?w True]" and w = ?w
            and ok = True and dflt = "[]" and send = None and msg = msg_exhausted
            and err = "''boom''" and out = ?out and e = None]
       run pub mem top
  show ?thesis by (simp add: step5_fatal_def)
qed

subsection \<open>The replayer\<close>

text \<open>
  Claim C5, as stated, fails: the offset of a matching message is committed by the read,
  before the replay is attempted, and stays committed when the replay produce fails.
\<close>

theorem replay_commit_precedes_failed_produce:
  "replayOne demo_unmarshalEvent replayer_cfg False msg_dlq =
     [OffsetCommitted 3,
      ReplayFailed \<lparr>Topic = ''saga.step4.completed'', Key = ''s1'', Value = event_json,
                     Headers = [(''x-saga-id'', ''s1''), (''x-saga-id'', ''s1''),
                                (''x-original-topic'', ''saga.step4.completed'')]\<rparr>]"
  by (simp add: replayOne_def replayTarget_def saga_inputs Let_def)

lemma replayTarget_last:
  "replayTarget dflt hs = (if originalTopics hs = [] then dflt else last (originalTopics hs))"
proof (induction hs rule: rev_induct)
  case Nil
  then show ?case by (simp add: replayTarget_def originalTopics_def)
next
  case (snoc h hs)
  then show ?case by (simp add: replayTarget_def originalTopics_def)
qed

text \<open>
  Claim C5, amended. For a dead-letter message whose value decodes: if it passes the
  filter (none is configured, or the saga id equals it) and its replay target is not
  empty, the replayer attempts one produce to the target with the message's key, value
  and headers unchanged, after the read has committed the offset, and whatever the
  outcome of the produce; if it does not pass the filter, its offset is committed and
  nothing is produced. The target is the value of the last \<open>x-original-topic\<close> header, or
  \<open>REPLAY_TARGET\<close> when the message has none.
\<close>

theorem replayer_replays_matching:
  assumes "u (Value m) = Some evt"
  shows "((rc_sagaFilter cfg = [] \<or> SagaID evt = rc_sagaFilter cfg) \<and>
            replayTarget (rc_replayDefault cfg) (Headers m) \<noteq> [] \<longrightarrow>
          replayOne u cfg wrote m =
            [OffsetCommitted (Offset m),
             (if wrote then Replayed else ReplayFailed)
               \<lparr>Topic = replayTarget (rc_replayDefault cfg) (Headers m),
                 Key = Key m, Value = Value m, Headers = Headers m\<rparr>]) \<and>
         (rc_sagaFilter cfg \<noteq> [] \<and> SagaID evt \<noteq> rc_sagaFilter cfg \<longrightarrow>
            replayOne u cfg wrote m = [OffsetCommitted (Offset m)]) \<and>
         replayTarget (rc_replayDefault cfg) (Headers m) =
           (if originalTopics (Headers m) = [] then rc_replayDefault cfg
            else last (originalTopics (Headers m)))"
  using assms by (auto simp: replayOne_def Let_def replayTarget_last)

theorem replayer_replays_matching_witness:
  "demo_unmarshalEvent (Value msg_dlq) = Some event_s1 \<and>
   SagaID event_s1 = rc_sagaFilter replayer_cfg \<and>
   replayOne demo_unmarshalEvent replayer_cfg True msg_dlq =
     [OffsetCommitted 3,
      Replayed \<lparr>Topic = ''saga.step4.completed'', Key = ''s1'', Value = event_json,
                 Headers = [(''x-saga-id'', ''s1''), (''x-saga-id'', ''s1''),
                            (''x-original-topic'', ''saga.step4.completed'')]\<rparr>] \<and>
   rc_sagaFilter (replayer_cfg\<lparr>rc_sagaFilter := ''s2''\<rparr>) \<noteq> [] \<and>
   SagaID event_s1 \<noteq> rc_sagaFilter (replayer_cfg\<lparr>rc_sagaFilter := ''s2''\<rparr>) \<and>
   replayOne demo_unmarshalEvent (replayer_cfg\<lparr>rc_sagaFilter := ''s2''\<rparr>) True msg_dlq =
     [OffsetCommitted 3]"
proof -
  have dec: "demo_unmarshalEvent (Value msg_dlq) = Some event_s1"
    by (simp add: saga_inputs)
  have tgt: "replayTarget (rc_replayDefault replayer_cfg) (Headers msg_dlq) = ''saga.step4.completed''"
    by (simp add: replayTarget_def saga_inputs)
  have f: "SagaID event_s1 = rc_sagaFilter replayer_cfg" by (simp add: saga_inputs)
  note t1 = replayer_replays_matching
              [where u = demo_unmarshalEvent and m = msg_dlq and evt = event_s1
                 and cfg = replayer_cfg and wrote = True]
  note t2 = replayer_replays_matching
              [where u = demo_unmarshalEvent and m = msg_dlq and evt = event_s1
                 and cfg = "replayer_cfg\<lparr>rc_sagaFilter := ''s2''\<rparr>" and wrote = True]
  have a1: "replayOne demo_unmarshalEvent replayer_cfg True msg_dlq =
     [OffsetCommitted (Offset msg_dlq),
      Replayed \<lparr>Topic = ''saga.step4.completed'', Key = Key msg_dlq, Value = Value msg_dlq,
                 Headers = Headers msg_dlq\<rparr>]"
    using t1 dec f tgt by simp
  have a2: "replayOne demo_unmarshalEvent (replayer_cfg\<lparr>rc_sagaFilter := ''s2''\<rparr>) True msg_dlq =
     [OffsetCommitted (Offset msg_dlq)]"
    using t2 dec by (simp add: saga_inputs)
  from dec f a1 a2 show ?thesis by (simp add: saga_inputs)
qed

end
